theory Spec2Isabelle
  imports Main "HOL-Library.AList"
begin

section \<open>The call manager of the WhatsApp calling server\<close>

text \<open>
  The module under study keeps two JavaScript \<open>Map\<close>s, \<open>calls\<close> (call id to call state)
  and \<open>permissions\<close> (phone to grant), and exports the handlers that the webhook, the
  HTTP routes and the socket events call. A JavaScript \<open>Map\<close> iterates in insertion
  order, \<open>set\<close> on a present key replaces the value where it stands and \<open>set\<close> on
  an absent key appends: that is an association list with \<open>AList.update\<close> and
  \<open>AList.delete\<close>, read with \<open>map_of\<close>.

  Every handler is one function from the state before to the state after: the run of the
  handler with no other handler run in between. What the outside world answers during the
  run (the media bridge, the Graph API) is the argument \<open>x\<close>; the clock reading
  \<open>Date.now()\<close> is the argument \<open>now\<close>, one instant for one run. A handler that can
  throw returns the error or the result together with the state it leaves. Console output
  is not part of the state.

  A handler that awaits the outside world can be overlapped there: the event loop may run
  other handlers during the await. Two handlers decide before their await, on what they
  read in the registry, what they write after it: \<open>startOutboundCall\<close> in server mode
  and \<open>handleBrowserSdpOffer\<close>. Both are therefore also given in two
  parts, the part before the await and the part after it, so that runs which overlap can
  be written down: \<open>startOutboundCall_scan\<close> and \<open>startOutboundCallWithServerWebRTC\<close> on
  the state above, \<open>offer_begin\<close> and \<open>offer_resume\<close> on a registry of references, since
  the second part of \<open>handleBrowserSdpOffer\<close> writes to the object it looked up before
  the await, wherever the registry holds that object by then.
\<close>

subsection \<open>Data\<close>

type_synonym peer = nat

datatype direction = Outbound | Inbound

datatype call_status =
    Awaiting_browser_sdp | Ringing | Accepted | Connected
  | Incoming | Accepting | Pre_accepted
  | Rejected | Terminated | Expired | Failed | Reset

record call_state =
  callId :: string
  direction :: direction
  recipientPhone :: string
  status :: call_status
  socketId :: "string option"
  whatsappSdpOffer :: "string option"
  whatsappPeer :: "peer option"
  browserPeer :: "peer option"
  createdAt :: int

record permission =
  grantedAt :: int
  expiresAt :: int

text \<open>The object \<open>getPermissionStatus\<close> returns: \<open>{granted: false}\<close>,
  \<open>{granted: false, expired: true}\<close>, or \<open>{granted: true, grantedAt, expiresAt, remainingHours}\<close>
  (the two dates kept as milliseconds).\<close>

datatype perm_status = Not_granted | Just_expired | Granted int int int

fun granted :: "perm_status \<Rightarrow> bool" where
  "granted (Granted g e h) = True"
| "granted Not_granted = False"
| "granted Just_expired = False"

fun expired :: "perm_status \<Rightarrow> bool" where
  "expired Just_expired = True"
| "expired Not_granted = False"
| "expired (Granted g e h) = False"

text \<open>The events sent to the browsers, and to whom: \<open>io.emit\<close> reaches every client,
  \<open>socket.emit\<close> and \<open>io.to(id).emit\<close> one client.\<close>

datatype target = Broadcast | To_socket string

datatype event =
    Permission_granted string int int
  | Call_ringing string string
  | Generate_sdp_offer string string
  | Call_error string string
  | Setup_browser_audio string
  | Sdp_answer_from_whatsapp string string
  | Call_connected string string
  | Call_accepted string string
  | Call_rejected string string
  | Call_status string string
  | Call_incoming string string int
  | Inbound_sdp_offer string "string option"
  | Call_ended string "string option"
  | Calls_reset nat
  | Error_message string

text \<open>Every \<open>throw new Error(...)\<close> of the module, and a failure raised by the media
  bridge or the Graph API client with its message.\<close>

datatype error =
    Permission_expired
  | No_permission
  | Outbound_in_progress string call_status
  | No_inbound_call_to_accept
  | No_inbound_call_to_reject
  | No_active_call
  | External_failure string

datatype start_result = Started string call_status "string option"

record system =
  calls :: "(string \<times> call_state) list"
  permissions :: "(string \<times> permission) list"
  emitted :: "(target \<times> event) list"
  closedPeers :: "peer list"
  timers :: "string list"

text \<open>The reply of the Graph API to \<open>initiateOutboundCall\<close>: the three places the handlers
  look for the call id.\<close>

record api_result =
  calls0_id :: "string option"
  call_id :: "string option"
  result_id :: "string option"

text \<open>What the media bridge and the Graph API answer during one handler run. An
  asynchronous call that rejects is \<open>Inl message\<close> (or \<open>Some message\<close> when it returns
  nothing of use). \<open>answerCall\<close> is asked with the action, \<open>pre_accept\<close> or \<open>accept\<close>;
  the SDP text passed along with it, which \<open>filterSdpForWhatsApp\<close> has rewritten, is not
  kept anywhere.\<close>

record externals =
  isAvailable :: bool
  createPeerConnection :: peer
  createOfferSdp :: "string + string"
  createAnswerSdp :: "string + string"
  setRemoteAnswer :: "string option"
  initiateOutboundCall :: "string + api_result"
  answerCall :: "string \<Rightarrow> string option"
  terminateCall :: "string option"
  rejectCall :: "string option"

text \<open>The module starts with two empty maps.\<close>

definition init_system :: system where
  "init_system = \<lparr>calls = [], permissions = [], emitted = [], closedPeers = [], timers = []\<rparr>"

subsection \<open>Helpers\<close>

definition emit :: "target \<Rightarrow> event \<Rightarrow> system \<Rightarrow> system" where
  "emit t e st = st\<lparr>emitted := emitted st @ [(t, e)]\<rparr>"

text \<open>An assignment to a field of the object stored under key \<open>k\<close>.\<close>

definition mutate :: "string \<Rightarrow> (call_state \<Rightarrow> call_state) \<Rightarrow> system \<Rightarrow> system" where
  "mutate k f st =
     st\<lparr>calls := map (\<lambda>(k', s). if k' = k then (k', f s) else (k', s)) (calls st)\<rparr>"

text \<open>\<open>a || b\<close> on strings that may be missing: the empty string is falsy.\<close>

fun or_else :: "string option \<Rightarrow> string \<Rightarrow> string" where
  "or_else None d = d"
| "or_else (Some s) d = (if s = [] then d else s)"

definition pickCallId :: "api_result \<Rightarrow> string \<Rightarrow> string" where
  "pickCallId r d = or_else (calls0_id r) (or_else (call_id r) (or_else (result_id r) d))"

text \<open>The decimal text of a number, for \<open>`call_${Date.now()}`\<close>.\<close>

fun digits_of :: "nat \<Rightarrow> string" where
  "digits_of n =
     (if n < 10 then [char_of (48 + n)]
      else digits_of (n div 10) @ [char_of (48 + n mod 10)])"

declare digits_of.simps [simp del]

definition string_of_int :: "int \<Rightarrow> string" where
  "string_of_int i = (if i < 0 then CHR ''-'' # digits_of (nat (- i)) else digits_of (nat i))"

definition status_name :: "call_status \<Rightarrow> string" where
  "status_name s = (case s of
      Awaiting_browser_sdp \<Rightarrow> ''awaiting_browser_sdp'' | Ringing \<Rightarrow> ''ringing''
    | Accepted \<Rightarrow> ''accepted'' | Connected \<Rightarrow> ''connected'' | Incoming \<Rightarrow> ''incoming''
    | Accepting \<Rightarrow> ''accepting'' | Pre_accepted \<Rightarrow> ''pre_accepted''
    | Rejected \<Rightarrow> ''rejected'' | Terminated \<Rightarrow> ''terminated'' | Expired \<Rightarrow> ''expired''
    | Failed \<Rightarrow> ''failed'' | Reset \<Rightarrow> ''reset'')"

definition message :: "error \<Rightarrow> string" where
  "message e = (case e of
      Permission_expired \<Rightarrow> ''Call permission has expired. Send a new permission request.''
    | No_permission \<Rightarrow> ''No call permission for this number. Send a permission request first.''
    | Outbound_in_progress i s \<Rightarrow>
        ''An outbound call is already in progress ('' @ i @ '', status: '' @ status_name s @ '')''
    | No_inbound_call_to_accept \<Rightarrow> ''No inbound call to accept''
    | No_inbound_call_to_reject \<Rightarrow> ''No inbound call to reject''
    | No_active_call \<Rightarrow> ''No active call''
    | External_failure m \<Rightarrow> m)"

subsection \<open>Permissions\<close>

text \<open>\<open>Math.round((expiresAt - now) / 3600000)\<close>: the nearest whole number, a half going up.\<close>

definition round_hours :: "int \<Rightarrow> int" where
  "round_hours ms = (ms + 1800000) div 3600000"

definition getPermissionStatus :: "string \<Rightarrow> int \<Rightarrow> system \<Rightarrow> perm_status \<times> system" where
  "getPermissionStatus phone now st =
     (case map_of (permissions st) phone of
        None \<Rightarrow> (Not_granted, st)
      | Some perm \<Rightarrow>
          if now > expiresAt perm
          then (Just_expired, st\<lparr>permissions := AList.delete phone (permissions st)\<rparr>)
          else (Granted (grantedAt perm) (expiresAt perm) (round_hours (expiresAt perm - now)), st))"

definition handlePermissionGranted :: "string \<Rightarrow> int \<Rightarrow> system \<Rightarrow> system" where
  "handlePermissionGranted phone now st =
     (let g = now; e = g + (72 * 60 * 60 * 1000) in
      emit Broadcast (Permission_granted phone g e)
        (st\<lparr>permissions :=
              AList.update phone \<lparr>grantedAt = g, expiresAt = e\<rparr> (permissions st)\<rparr>))"

subsection \<open>Cleanup\<close>

text \<open>\<open>cleanup\<close> closes the peers the call holds and sets a timer that deletes the key five
  minutes later; \<open>timers\<close> lists the keys whose deletion is pending, and
  \<open>timer_fires\<close> is that deletion.\<close>

definition peers_of :: "call_state \<Rightarrow> peer list" where
  "peers_of s =
     (case whatsappPeer s of Some p \<Rightarrow> [p] | None \<Rightarrow> []) @
     (case browserPeer s of Some p \<Rightarrow> [p] | None \<Rightarrow> [])"

definition cleanup :: "string \<Rightarrow> system \<Rightarrow> system" where
  "cleanup k st =
     (case map_of (calls st) k of
        None \<Rightarrow> st
      | Some s \<Rightarrow> st\<lparr>closedPeers := closedPeers st @ peers_of s, timers := timers st @ [k]\<rparr>)"

definition timer_fires :: "string \<Rightarrow> system \<Rightarrow> system" where
  "timer_fires k st = st\<lparr>calls := AList.delete k (calls st), timers := remove1 k (timers st)\<rparr>"

subsection \<open>Outbound calls\<close>

definition blocks_outbound :: "call_state \<Rightarrow> bool" where
  "blocks_outbound s \<longleftrightarrow>
     direction s = Outbound \<and> status s \<in> set [Awaiting_browser_sdp, Ringing, Accepted, Connected]"

text \<open>The loop of \<open>startOutboundCall\<close> over the entries of \<open>calls\<close>: a stale call waiting for
  the browser's offer is expired and cleaned up, any other live outbound call throws.\<close>

fun scanOutbound :: "int \<Rightarrow> (string \<times> call_state) list \<Rightarrow> system \<Rightarrow> error option \<times> system" where
  "scanOutbound now [] st = (None, st)"
| "scanOutbound now ((k, s) # rest) st =
     (if blocks_outbound s then
        (if status s = Awaiting_browser_sdp \<and> now - createdAt s > 30 * 1000
         then scanOutbound now rest (cleanup k (mutate k (\<lambda>c. c\<lparr>status := Expired\<rparr>) st))
         else (Some (Outbound_in_progress k (status s)), st))
      else scanOutbound now rest st)"

definition startOutboundCallWithServerWebRTC ::
  "string \<Rightarrow> int \<Rightarrow> externals \<Rightarrow> system \<Rightarrow> (error + start_result) \<times> system" where
  "startOutboundCallWithServerWebRTC phone now x st =
     (let whatsappPeer' = createPeerConnection x in
      case createOfferSdp x of
        Inl m \<Rightarrow> (Inl (External_failure m), st)
      | Inr sdpOffer \<Rightarrow>
         (case initiateOutboundCall x of
            Inl m \<Rightarrow> (Inl (External_failure m), st)
          | Inr result \<Rightarrow>
             (let k = pickCallId result (''call_'' @ string_of_int now);
                  state = \<lparr>callId = k, direction = Outbound, recipientPhone = phone,
                           status = Ringing, socketId = None, whatsappSdpOffer = None,
                           whatsappPeer = Some whatsappPeer', browserPeer = None,
                           createdAt = now\<rparr>
              in (Inr (Started k Ringing None),
                  emit Broadcast (Call_ringing k phone)
                    (st\<lparr>calls := AList.update k state (calls st)\<rparr>)))))"

definition startOutboundCallBrowserOnly ::
  "string \<Rightarrow> string option \<Rightarrow> int \<Rightarrow> system \<Rightarrow> (error + start_result) \<times> system" where
  "startOutboundCallBrowserOnly phone socket now st =
     (let k = ''call_'' @ string_of_int now;
          state = \<lparr>callId = k, direction = Outbound, recipientPhone = phone,
                   status = Awaiting_browser_sdp,
                   socketId = (case socket of None \<Rightarrow> None
                               | Some i \<Rightarrow> if i = [] then None else Some i),
                   whatsappSdpOffer = None, whatsappPeer = None, browserPeer = None,
                   createdAt = now\<rparr>
      in (Inr (Started k Awaiting_browser_sdp (Some ''browser-only'')),
          emit (case socket of Some i \<Rightarrow> To_socket i | None \<Rightarrow> Broadcast)
               (Generate_sdp_offer k phone)
            (st\<lparr>calls := AList.update k state (calls st)\<rparr>)))"

text \<open>\<open>startOutboundCall\<close> up to its dispatch: the permission check and the loop, with the
  error thrown if any. Nothing is awaited here.\<close>

definition startOutboundCall_scan :: "string \<Rightarrow> int \<Rightarrow> system \<Rightarrow> error option \<times> system" where
  "startOutboundCall_scan phone now st =
     (case getPermissionStatus phone now st of
        (permStatus, st1) \<Rightarrow>
          if \<not> granted permStatus
          then (Some (if expired permStatus then Permission_expired else No_permission), st1)
          else scanOutbound now (calls st1) st1)"

text \<open>The whole request, nothing running in between. In browser-only mode the source
  awaits nothing. In server mode \<open>startOutboundCallWithServerWebRTC\<close> awaits the bridge
  and the Graph API before it writes, and does not look at the registry again: a run that
  is overlapped is \<open>startOutboundCall_scan\<close> on the state at the request and
  \<open>startOutboundCallWithServerWebRTC\<close> on the state at the reply.\<close>

definition startOutboundCall ::
  "string \<Rightarrow> string option \<Rightarrow> int \<Rightarrow> externals \<Rightarrow> system \<Rightarrow> (error + start_result) \<times> system" where
  "startOutboundCall phone socket now x st =
     (case startOutboundCall_scan phone now st of
        (Some e, st2) \<Rightarrow> (Inl e, st2)
      | (None, st2) \<Rightarrow>
          if isAvailable x then startOutboundCallWithServerWebRTC phone now x st2
          else startOutboundCallBrowserOnly phone socket now st2)"

definition handleBrowserSdpOffer :: "string \<Rightarrow> string \<Rightarrow> externals \<Rightarrow> system \<Rightarrow> system" where
  "handleBrowserSdpOffer k sdpOffer x st =
     (case map_of (calls st) k of
        None \<Rightarrow> st
      | Some state \<Rightarrow>
          if status state = Ringing \<or> status state = Connected then st
          else (case initiateOutboundCall x of
                  Inr result \<Rightarrow>
                    (let waCallId = pickCallId result k;
                         state' = state\<lparr>callId := waCallId, status := Ringing\<rparr>;
                         st1 = mutate k (\<lambda>c. c\<lparr>callId := waCallId, status := Ringing\<rparr>) st;
                         st2 = (if waCallId \<noteq> k
                                then st1\<lparr>calls := AList.update waCallId state'
                                                    (AList.delete k (calls st1))\<rparr>
                                else st1)
                     in emit Broadcast (Call_ringing waCallId (recipientPhone state)) st2)
                | Inl errMsg \<Rightarrow>
                    emit Broadcast (Call_error k errMsg)
                      (cleanup k (mutate k (\<lambda>c. c\<lparr>status := Failed\<rparr>) st))))"

text \<open>The fallback of \<open>handleOutboundSdpAnswer\<close>: the first outbound call that is ringing or
  accepted is taken out of its key and stored under the arriving id.\<close>

definition answer_fallback :: "call_state \<Rightarrow> bool" where
  "answer_fallback s \<longleftrightarrow> direction s = Outbound \<and> (status s = Ringing \<or> status s = Accepted)"

definition adoptOutbound :: "string \<Rightarrow> system \<Rightarrow> call_state option \<times> system" where
  "adoptOutbound k st =
     (case find (\<lambda>(i, s). answer_fallback s) (calls st) of
        None \<Rightarrow> (None, st)
      | Some (i, s) \<Rightarrow>
          (let state = s\<lparr>callId := k\<rparr>
           in (Some state, st\<lparr>calls := AList.update k state (AList.delete i (calls st))\<rparr>)))"

definition handleOutboundSdpAnswer ::
  "string \<Rightarrow> string \<Rightarrow> externals \<Rightarrow> system \<Rightarrow> (error + unit) \<times> system" where
  "handleOutboundSdpAnswer k sdpAnswer x st =
     (case (case map_of (calls st) k of
              Some s \<Rightarrow> (Some s, st)
            | None \<Rightarrow> adoptOutbound k st) of
        (None, st1) \<Rightarrow> (Inr (), st1)
      | (Some state, st1) \<Rightarrow>
          (let st2 = mutate k (\<lambda>c. c\<lparr>status := Connected\<rparr>) st1;
               tgt = (case socketId state of
                        Some i \<Rightarrow> if i = [] then Broadcast else To_socket i
                      | None \<Rightarrow> Broadcast)
           in case whatsappPeer state of
                Some p \<Rightarrow>
                  (case setRemoteAnswer x of
                     Some m \<Rightarrow> (Inl (External_failure m), st2)
                   | None \<Rightarrow>
                       (Inr (), emit Broadcast (Call_connected k (recipientPhone state))
                                  (emit tgt (Setup_browser_audio k) st2)))
              | None \<Rightarrow>
                  (Inr (), emit Broadcast (Call_connected k (recipientPhone state))
                             (emit tgt (Sdp_answer_from_whatsapp k sdpAnswer) st2))))"

text \<open>The session a status event is applied to, with the key it is stored under: the one
  under the event's id, else the first outbound call that is ringing, accepted or waiting
  for the browser's offer.\<close>

definition status_fallback :: "call_state \<Rightarrow> bool" where
  "status_fallback s \<longleftrightarrow>
     direction s = Outbound \<and> status s \<in> set [Ringing, Accepted, Awaiting_browser_sdp]"

definition statusTarget :: "string \<Rightarrow> system \<Rightarrow> (string \<times> call_state) option" where
  "statusTarget k st =
     (case map_of (calls st) k of
        Some s \<Rightarrow> Some (k, s)
      | None \<Rightarrow> find (\<lambda>(i, s). status_fallback s) (calls st))"

definition handleOutboundStatus :: "string \<Rightarrow> string \<Rightarrow> system \<Rightarrow> system" where
  "handleOutboundStatus k statusValue st =
     (case statusTarget k st of
        None \<Rightarrow> st
      | Some (i, state) \<Rightarrow>
          if statusValue = ''ringing'' then
            emit Broadcast (Call_ringing k (recipientPhone state))
              (mutate i (\<lambda>c. c\<lparr>status := Ringing\<rparr>) st)
          else if statusValue = ''accepted'' then
            emit Broadcast (Call_accepted k (recipientPhone state))
              (mutate i (\<lambda>c. c\<lparr>status := Accepted\<rparr>) st)
          else if statusValue = ''rejected'' then
            cleanup k
              (emit Broadcast (Call_rejected k (recipientPhone state))
                 (mutate i (\<lambda>c. c\<lparr>status := Rejected\<rparr>) st))
          else emit Broadcast (Call_status k statusValue) st)"

subsection \<open>Inbound calls\<close>

definition handleInboundCall :: "string \<Rightarrow> string \<Rightarrow> string \<Rightarrow> int \<Rightarrow> system \<Rightarrow> system" where
  "handleInboundCall k from sdpOffer now st =
     (let state = \<lparr>callId = k, direction = Inbound, recipientPhone = from,
                   status = Incoming, socketId = None, whatsappSdpOffer = Some sdpOffer,
                   whatsappPeer = None, browserPeer = None, createdAt = now\<rparr>
      in emit Broadcast (Call_incoming k from now)
           (st\<lparr>calls := AList.update k state (calls st)\<rparr>))"

definition acceptInboundCall ::
  "string \<Rightarrow> string option \<Rightarrow> externals \<Rightarrow> system \<Rightarrow> (error + unit) \<times> system" where
  "acceptInboundCall k socket x st =
     (case map_of (calls st) k of
        None \<Rightarrow> (Inl No_inbound_call_to_accept, st)
      | Some state \<Rightarrow>
          if direction state \<noteq> Inbound then (Inl No_inbound_call_to_accept, st)
          else
            (let st1 = mutate k (\<lambda>c. c\<lparr>status := Accepting\<rparr>) st;
                 tgt = (case socket of Some i \<Rightarrow> To_socket i | None \<Rightarrow> Broadcast)
             in if isAvailable x then
                  (let st2 = mutate k (\<lambda>c. c\<lparr>whatsappPeer := Some (createPeerConnection x)\<rparr>) st1
                   in case createAnswerSdp x of
                        Inl m \<Rightarrow> (Inl (External_failure m), st2)
                      | Inr sdpAnswer \<Rightarrow>
                         (case answerCall x ''pre_accept'' of
                            Some m \<Rightarrow> (Inl (External_failure m), st2)
                          | None \<Rightarrow>
                             (let st3 = mutate k (\<lambda>c. c\<lparr>status := Pre_accepted\<rparr>) st2
                              in case answerCall x ''accept'' of
                                   Some m \<Rightarrow> (Inl (External_failure m), st3)
                                 | None \<Rightarrow>
                                    (Inr (),
                                     emit Broadcast (Call_connected k (recipientPhone state))
                                       (emit tgt (Setup_browser_audio k)
                                          (mutate k (\<lambda>c. c\<lparr>status := Connected\<rparr>) st3))))))
                else (Inr (), emit tgt (Inbound_sdp_offer k (whatsappSdpOffer state)) st1)))"

definition handleBrowserSdpAnswer ::
  "string \<Rightarrow> string \<Rightarrow> externals \<Rightarrow> system \<Rightarrow> (error + unit) \<times> system" where
  "handleBrowserSdpAnswer k sdpAnswer x st =
     (case map_of (calls st) k of
        None \<Rightarrow> (Inr (), st)
      | Some state \<Rightarrow>
          if direction state = Inbound \<and> \<not> isAvailable x then
            (case answerCall x ''pre_accept'' of
               Some m \<Rightarrow> (Inl (External_failure m), st)
             | None \<Rightarrow>
                (let st1 = mutate k (\<lambda>c. c\<lparr>status := Pre_accepted\<rparr>) st
                 in case answerCall x ''accept'' of
                      Some m \<Rightarrow> (Inl (External_failure m), st1)
                    | None \<Rightarrow>
                       (Inr (), emit Broadcast (Call_connected k (recipientPhone state))
                                  (mutate k (\<lambda>c. c\<lparr>status := Connected\<rparr>) st1))))
          else if whatsappPeer state \<noteq> None \<and> browserPeer state \<noteq> None then
            (case setRemoteAnswer x of
               Some m \<Rightarrow> (Inl (External_failure m), st)
             | None \<Rightarrow> (Inr (), st))
          else (Inr (), st))"

subsection \<open>Ending calls\<close>

definition handleTerminate :: "string \<Rightarrow> system \<Rightarrow> system" where
  "handleTerminate k st =
     (case map_of (calls st) k of
        None \<Rightarrow> st
      | Some state \<Rightarrow>
          cleanup k
            (emit Broadcast (Call_ended k (Some (recipientPhone state)))
               (mutate k (\<lambda>c. c\<lparr>status := Terminated\<rparr>) st)))"

text \<open>\<open>try { await api(...) } catch (e) { console.warn(...) }\<close>: whether the call resolves
  or rejects, the handler goes on from the same state. (The Graph API client of the
  repository defines no \<open>rejectCall\<close>, so that call always ends in the \<open>catch\<close>; the
  model lets it answer either way.)\<close>

definition swallow :: "string option \<Rightarrow> system \<Rightarrow> system" where
  "swallow outcome st = (case outcome of None \<Rightarrow> st | Some e \<Rightarrow> st)"

definition rejectInboundCall :: "string \<Rightarrow> externals \<Rightarrow> system \<Rightarrow> (error + unit) \<times> system" where
  "rejectInboundCall k x st =
     (case map_of (calls st) k of
        None \<Rightarrow> (Inl No_inbound_call_to_reject, st)
      | Some state \<Rightarrow>
          if direction state \<noteq> Inbound then (Inl No_inbound_call_to_reject, st)
          else
            (Inr (),
             cleanup k
               (emit Broadcast (Call_ended k (Some (recipientPhone state)))
                  (mutate k (\<lambda>c. c\<lparr>status := Rejected\<rparr>) (swallow (rejectCall x) st)))))"

definition endCall :: "string \<Rightarrow> externals \<Rightarrow> system \<Rightarrow> (error + unit) \<times> system" where
  "endCall k x st =
     (case map_of (calls st) k of
        None \<Rightarrow> (Inl No_active_call, st)
      | Some state \<Rightarrow>
          (Inr (),
           cleanup k
             (emit Broadcast (Call_ended k None)
                (mutate k (\<lambda>c. c\<lparr>status := Terminated\<rparr>) (swallow (terminateCall x) st)))))"

text \<open>The \<open>end-call\<close> socket handler of the server: an error thrown by \<open>endCall\<close> is sent
  back to the socket that asked.\<close>

definition on_end_call :: "string \<Rightarrow> string \<Rightarrow> externals \<Rightarrow> system \<Rightarrow> system" where
  "on_end_call socket k x st =
     (case endCall k x st of
        (Inl err, st1) \<Rightarrow> emit (To_socket socket) (Error_message (message err)) st1
      | (Inr u, st1) \<Rightarrow> st1)"

subsection \<open>Reset\<close>

definition stuck :: "call_state \<Rightarrow> bool" where
  "stuck s \<longleftrightarrow> status s \<in> set [Awaiting_browser_sdp, Ringing, Accepted, Incoming]"

fun resetLoop :: "(string \<times> call_state) list \<Rightarrow> nat \<Rightarrow> system \<Rightarrow> nat \<times> system" where
  "resetLoop [] count st = (count, st)"
| "resetLoop ((k, s) # rest) count st =
     (if stuck s
      then resetLoop rest (count + 1) (cleanup k (mutate k (\<lambda>c. c\<lparr>status := Reset\<rparr>) st))
      else resetLoop rest count st)"

definition resetCalls :: "bool \<Rightarrow> system \<Rightarrow> nat \<times> system" where
  "resetCalls io st =
     (case resetLoop (calls st) 0 st of
        (count, st1) \<Rightarrow> (count, if io then emit Broadcast (Calls_reset count) st1 else st1))"

subsection \<open>The browser's offer, in two parts\<close>

text \<open>
  \<open>handleBrowserSdpOffer\<close> holds, across its await, the call object it looked up and the
  id it looked it up by. To say what it does when another run has come in between, the
  registry maps keys to references and the objects live apart: one object can then stand
  under two keys, as in the JavaScript \<open>Map\<close>. \<open>view\<close> reads such a registry as the state
  of the sections above.
\<close>

record world =
  registry :: "(string \<times> nat) list"
  objects :: "nat \<Rightarrow> call_state"
  w_permissions :: "(string \<times> permission) list"
  w_emitted :: "(target \<times> event) list"
  w_closedPeers :: "peer list"
  w_timers :: "string list"

definition view :: "world \<Rightarrow> system" where
  "view w =
     \<lparr>calls = map (\<lambda>(k, a). (k, objects w a)) (registry w), permissions = w_permissions w,
      emitted = w_emitted w, closedPeers = w_closedPeers w, timers = w_timers w\<rparr>"

text \<open>The part before \<open>await whatsappApi.initiateOutboundCall\<close>: the lookup and the guard
  against a second offer. \<open>Some a\<close> is the object the run goes on with.\<close>

definition offer_begin :: "string \<Rightarrow> world \<Rightarrow> nat option" where
  "offer_begin k w =
     (case map_of (registry w) k of
        None \<Rightarrow> None
      | Some a \<Rightarrow>
          if status (objects w a) = Ringing \<or> status (objects w a) = Connected then None
          else Some a)"



subsection \<open>Notions used in the statements\<close>

text \<open>A call waiting for the browser's offer for more than thirty seconds.\<close>

definition stale :: "int \<Rightarrow> call_state \<Rightarrow> bool" where
  "stale now s \<longleftrightarrow> status s = Awaiting_browser_sdp \<and> now - createdAt s > 30 * 1000"

text \<open>The outbound calls that are waiting for the browser's offer, ringing, accepted or
  connected.\<close>

definition activeOutbound :: "system \<Rightarrow> call_state list" where
  "activeOutbound st = filter blocks_outbound (map snd (calls st))"

text \<open>What the loop of \<open>startOutboundCall\<close> expires before it stops: the keys, and the peers
  that \<open>cleanup\<close> closes.\<close>

fun expiredKeys :: "int \<Rightarrow> (string \<times> call_state) list \<Rightarrow> string list" where
  "expiredKeys now [] = []"
| "expiredKeys now ((k, s) # rest) =
     (if blocks_outbound s then (if stale now s then k # expiredKeys now rest else [])
      else expiredKeys now rest)"

fun expiredPeers :: "int \<Rightarrow> (string \<times> call_state) list \<Rightarrow> peer list" where
  "expiredPeers now [] = []"
| "expiredPeers now ((k, s) # rest) =
     (if blocks_outbound s then (if stale now s then peers_of s @ expiredPeers now rest else [])
      else expiredPeers now rest)"

definition set_status_in ::
  "string set \<Rightarrow> call_status \<Rightarrow> string \<times> call_state \<Rightarrow> string \<times> call_state" where
  "set_status_in K v e = (if fst e \<in> K then (fst e, (snd e)\<lparr>status := v\<rparr>) else e)"

text \<open>A call as \<open>startOutboundCall\<close> creates it for \<open>phone\<close> at time \<open>now\<close> under key \<open>k\<close>.\<close>

definition new_outbound :: "string \<Rightarrow> int \<Rightarrow> string \<Rightarrow> call_state \<Rightarrow> bool" where
  "new_outbound phone now k c \<longleftrightarrow>
     callId c = k \<and> direction c = Outbound \<and> recipientPhone c = phone \<and> createdAt c = now \<and>
     (status c = Awaiting_browser_sdp \<or> status c = Ringing)"



text \<open>A run of the module: the calls of its exported functions that the webhook, the HTTP
  routes and the sockets make, and the cleanup timers that fire, one after the other, each
  with what the outside world answers during it. A server-mode start that other runs
  overlap is its two parts, \<open>Start_scan\<close> and later \<open>Start_commit\<close>.\<close>

datatype request =
    Grant string int
  | Permission_status string int
  | Start string "string option" int
  | Start_scan string int
  | Start_commit string int
  | Browser_offer string string
  | Whatsapp_answer string string
  | Status_event string string
  | Inbound_call string string string int
  | Accept string "string option"
  | Browser_answer string string
  | Terminate_event string
  | Reject string
  | End_call string
  | Reset_calls bool
  | Timer string

fun step :: "request \<Rightarrow> externals \<Rightarrow> system \<Rightarrow> system" where
  "step (Grant phone now) x st = handlePermissionGranted phone now st"
| "step (Permission_status phone now) x st = snd (getPermissionStatus phone now st)"
| "step (Start phone socket now) x st = snd (startOutboundCall phone socket now x st)"
| "step (Start_scan phone now) x st = snd (startOutboundCall_scan phone now st)"
| "step (Start_commit phone now) x st = snd (startOutboundCallWithServerWebRTC phone now x st)"
| "step (Browser_offer k sdp) x st = handleBrowserSdpOffer k sdp x st"
| "step (Whatsapp_answer k sdp) x st = snd (handleOutboundSdpAnswer k sdp x st)"
| "step (Status_event k v) x st = handleOutboundStatus k v st"
| "step (Inbound_call k from sdp now) x st = handleInboundCall k from sdp now st"
| "step (Accept k socket) x st = snd (acceptInboundCall k socket x st)"
| "step (Browser_answer k sdp) x st = snd (handleBrowserSdpAnswer k sdp x st)"
| "step (Terminate_event k) x st = handleTerminate k st"
| "step (Reject k) x st = snd (rejectInboundCall k x st)"
| "step (End_call k) x st = snd (endCall k x st)"
| "step (Reset_calls io) x st = snd (resetCalls io st)"
| "step (Timer k) x st = timer_fires k st"

fun run :: "(request \<times> externals) list \<Rightarrow> system \<Rightarrow> system" where
  "run [] st = st"
| "run ((r, x) # rs) st = run rs (step r x st)"

subsection \<open>Concrete inputs\<close>

text \<open>A call as the handlers store it, and an outside world where every call to the bridge
  and to the Graph API succeeds, the API naming the call \<open>wacid.1\<close>.\<close>

definition a_call :: "string \<Rightarrow> direction \<Rightarrow> call_status \<Rightarrow> int \<Rightarrow> call_state" where
  "a_call k d v t =
     \<lparr>callId = k, direction = d, recipientPhone = ''+15551234567'', status = v,
      socketId = None, whatsappSdpOffer = None, whatsappPeer = None, browserPeer = None,
      createdAt = t\<rparr>"


definition naming :: "string \<Rightarrow> string + api_result" where
  "naming i = Inr \<lparr>calls0_id = Some i, call_id = None, result_id = None\<rparr>"

definition answers :: "bool \<Rightarrow> externals" where
  "answers bridge =
     \<lparr>isAvailable = bridge, createPeerConnection = 1, createOfferSdp = Inr ''v=0 offer'',
      createAnswerSdp = Inr ''v=0 answer'', setRemoteAnswer = None,
      initiateOutboundCall =
        Inr \<lparr>calls0_id = Some ''wacid.1'', call_id = None, result_id = None\<rparr>,
      answerCall = (\<lambda>action. None), terminateCall = None, rejectCall = None\<rparr>"


text \<open>Server mode with a Graph API that takes \<open>pre_accept\<close> and refuses \<open>accept\<close>.\<close>

definition accept_refused :: externals where
  "accept_refused =
     (answers True)\<lparr>answerCall :=
        (\<lambda>action. if action = ''accept'' then Some ''Request failed with status code 400''
                   else None)\<rparr>"

definition granted_72h :: "(string \<times> permission) list" where
  "granted_72h = [(''+15551234567'', \<lparr>grantedAt = 0, expiresAt = 259200000\<rparr>)]"

section \<open>Properties\<close>

subsection \<open>The state after the helpers\<close>

lemma emit_fields [simp]:
  "calls (emit t e st) = calls st"
  "permissions (emit t e st) = permissions st"
  "closedPeers (emit t e st) = closedPeers st"
  "timers (emit t e st) = timers st"
  "emitted (emit t e st) = emitted st @ [(t, e)]"
  by (simp_all add: emit_def)

lemma mutate_fields [simp]:
  "permissions (mutate k f st) = permissions st"
  "emitted (mutate k f st) = emitted st"
  "closedPeers (mutate k f st) = closedPeers st"
  "timers (mutate k f st) = timers st"
  by (simp_all add: mutate_def)

lemma keys_mutate [simp]: "map fst (calls (mutate k f st)) = map fst (calls st)"
  by (induction "calls st") (auto simp: mutate_def split_beta)

lemma map_of_mutate:
  "map_of (calls (mutate k f st)) k' =
     (if k' = k then map_option f (map_of (calls st) k') else map_of (calls st) k')"
proof -
  have "map_of (map (\<lambda>(i, s). if i = k then (i, f s) else (i, s)) cs) k' =
     (if k' = k then map_option f (map_of cs k') else map_of cs k')" for cs
    by (induction cs) auto
  then show ?thesis by (simp add: mutate_def)
qed

lemma startOutboundCall_alt:
  "startOutboundCall phone socket now x st =
     (case getPermissionStatus phone now st of
        (permStatus, st1) \<Rightarrow>
          if \<not> granted permStatus
          then (Inl (if expired permStatus then Permission_expired else No_permission), st1)
          else (case scanOutbound now (calls st1) st1 of
                  (Some e, st2) \<Rightarrow> (Inl e, st2)
                | (None, st2) \<Rightarrow>
                    if isAvailable x then startOutboundCallWithServerWebRTC phone now x st2
                    else startOutboundCallBrowserOnly phone socket now st2))"
  by (simp add: startOutboundCall_def startOutboundCall_scan_def split: prod.splits)

lemma cleanup_fields [simp]:
  "calls (cleanup k st) = calls st"
  "permissions (cleanup k st) = permissions st"
  "emitted (cleanup k st) = emitted st"
  by (simp_all add: cleanup_def split: option.splits)

lemma peers_of_status [simp]: "peers_of (s\<lparr>status := v\<rparr>) = peers_of s"
  by (simp add: peers_of_def)

lemma fst_set_status_in [simp]: "fst (set_status_in K v e) = fst e"
  by (simp add: set_status_in_def)

lemma set_status_in_empty [simp]: "set_status_in {} v e = e"
  by (simp add: set_status_in_def)

lemma set_status_in_comp:
  "set_status_in K v (set_status_in L v e) = set_status_in (K \<union> L) v e"
  by (auto simp: set_status_in_def)

lemma calls_mutate_status:
  "calls (mutate k (\<lambda>c. c\<lparr>status := v\<rparr>) st) = map (set_status_in {k} v) (calls st)"
  by (auto simp: mutate_def set_status_in_def)

subsection \<open>The loop of \<open>startOutboundCall\<close>\<close>

lemma scan_calls:
  "calls (snd (scanOutbound now todo st)) =
     map (set_status_in (set (expiredKeys now todo)) Expired) (calls st)"
proof (induction todo arbitrary: st)
  case Nil
  show ?case by simp
next
  case (Cons e todo)
  obtain k s where e: "e = (k, s)" by (cases e)
  let ?E = "set (expiredKeys now todo)"
  have comp: "set_status_in ?E Expired \<circ> set_status_in {k} Expired
        = set_status_in (insert k ?E) Expired"
    by (rule ext) (simp add: set_status_in_comp)
  show ?case
  proof (cases "blocks_outbound s")
    case False
    then show ?thesis unfolding e by (simp add: Cons.IH)
  next
    case blocks: True
    show ?thesis
    proof (cases "stale now s")
      case True
      with blocks have "expiredKeys now ((k, s) # todo) = k # expiredKeys now todo"
        by simp
      moreover from blocks True have "scanOutbound now ((k, s) # todo) st =
          scanOutbound now todo (cleanup k (mutate k (\<lambda>c. c\<lparr>status := Expired\<rparr>) st))"
        by (simp add: stale_def)
      ultimately show ?thesis unfolding e
        by (simp add: Cons.IH calls_mutate_status comp)
    next
      case False
      with blocks have "expiredKeys now ((k, s) # todo) = []" by simp
      moreover from blocks False have "scanOutbound now ((k, s) # todo) st =
          (Some (Outbound_in_progress k (status s)), st)"
        by (auto simp: stale_def)
      ultimately show ?thesis unfolding e by simp
    qed
  qed
qed

lemma scan_other [simp]:
  "permissions (snd (scanOutbound now todo st)) = permissions st"
  "emitted (snd (scanOutbound now todo st)) = emitted st"
  by (induction todo arbitrary: st) auto

lemma scan_keys [simp]: "map fst (calls (snd (scanOutbound now todo st))) = map fst (calls st)"
  by (simp add: scan_calls)


lemma scan_timers:
  "set (map fst todo) \<subseteq> set (map fst (calls st)) \<Longrightarrow>
   timers (snd (scanOutbound now todo st)) = timers st @ expiredKeys now todo"
proof (induction todo arbitrary: st)
  case Nil
  show ?case by simp
next
  case (Cons e todo)
  obtain k s where e: "e = (k, s)" by (cases e)
  from Cons.prems e have k: "k \<in> set (map fst (calls st))" and
    rest: "set (map fst todo) \<subseteq> set (map fst (calls st))" by auto
  from k obtain c where c: "map_of (calls st) k = Some c"
    by (metis map_of_eq_None_iff not_Some_eq set_map)
  have tm: "timers (cleanup k (mutate k f st)) = timers st @ [k]" for f
  proof -
    have "map_of (calls (mutate k f st)) k \<noteq> None"
      using k by (simp add: map_of_eq_None_iff flip: set_map)
    then show ?thesis by (auto simp: cleanup_def split: option.splits)
  qed
  show ?case unfolding e using rest
    by (simp add: Cons.IH tm stale_def)
qed

lemma count_expire:
  "length (filter blocks_outbound (map snd (map (set_status_in K Expired) cs)))
     \<le> length (filter blocks_outbound (map snd cs))"
  by (induction cs) (auto simp: set_status_in_def blocks_outbound_def)

lemma scan_closedPeers:
  "\<forall>(k, s) \<in> set todo. \<exists>c. map_of (calls st) k = Some c \<and> peers_of c = peers_of s \<Longrightarrow>
   closedPeers (snd (scanOutbound now todo st)) = closedPeers st @ expiredPeers now todo"
proof (induction todo arbitrary: st)
  case Nil
  show ?case by simp
next
  case (Cons e todo)
  obtain k s where e: "e = (k, s)" by (cases e)
  let ?st = "cleanup k (mutate k (\<lambda>c. c\<lparr>status := Expired\<rparr>) st)"
  from Cons.prems e obtain c where here: "map_of (calls st) k = Some c" "peers_of c = peers_of s"
    by auto
  from Cons.prems e
  have rest: "\<forall>(k, s) \<in> set todo. \<exists>c. map_of (calls st) k = Some c \<and> peers_of c = peers_of s"
    by auto
  have rest': "\<forall>(k, s) \<in> set todo. \<exists>c. map_of (calls ?st) k = Some c \<and> peers_of c = peers_of s"
  proof (clarify)
    fix a b assume "(a, b) \<in> set todo"
    with rest obtain c where "map_of (calls st) a = Some c" "peers_of c = peers_of b"
      by blast
    then show "\<exists>c. map_of (calls ?st) a = Some c \<and> peers_of c = peers_of b"
      by (cases "a = k") (simp_all add: map_of_mutate)
  qed
  have cl: "closedPeers ?st = closedPeers st @ peers_of s"
    using here by (simp add: cleanup_def map_of_mutate)
  show ?case unfolding e
    using Cons.IH [OF rest'] Cons.IH [OF rest] by (simp add: cl stale_def)
qed

lemma scan_ok_iff:
  "fst (scanOutbound now todo st) = None \<longleftrightarrow> (\<forall>(k, s) \<in> set todo. blocks_outbound s \<longrightarrow> stale now s)"
  by (induction now todo st rule: scanOutbound.induct) (auto simp: stale_def)

lemma scan_conflict:
  "\<exists>(k, s) \<in> set todo. blocks_outbound s \<and> \<not> stale now s \<Longrightarrow>
   \<exists>(k, s) \<in> set todo. blocks_outbound s \<and> \<not> stale now s \<and>
           fst (scanOutbound now todo st) = Some (Outbound_in_progress k (status s))"
  by (induction now todo st rule: scanOutbound.induct) (auto simp: stale_def)

lemma scan_active_le:
  "length (activeOutbound (snd (scanOutbound now todo st))) \<le> length (activeOutbound st)"
  unfolding activeOutbound_def scan_calls by (rule count_expire)

lemma expiredKeys_all:
  "\<forall>(k, s) \<in> set todo. blocks_outbound s \<longrightarrow> stale now s \<Longrightarrow>
   expiredKeys now todo = map fst (filter (blocks_outbound \<circ> snd) todo)"
  by (induction todo) auto

lemma scan_ok_no_active:
  assumes "fst (scanOutbound now (calls st) st) = None"
  shows "activeOutbound (snd (scanOutbound now (calls st) st)) = []"
proof -
  from assms have all: "\<forall>(k, s) \<in> set (calls st). blocks_outbound s \<longrightarrow> stale now s"
    by (simp add: scan_ok_iff)
  have "\<not> blocks_outbound (snd (set_status_in (set (expiredKeys now (calls st))) Expired e))"
    if "e \<in> set (calls st)" for e
  proof (cases "blocks_outbound (snd e)")
    case True
    with that have "fst e \<in> set (expiredKeys now (calls st))"
      by (force simp: expiredKeys_all [OF all])
    then show ?thesis by (simp add: set_status_in_def blocks_outbound_def)
  next
    case False
    then show ?thesis by (simp add: set_status_in_def blocks_outbound_def)
  qed
  then show ?thesis
    by (auto simp: activeOutbound_def scan_calls filter_empty_conv)
qed

lemma active_after_insert:
  assumes "activeOutbound st = []" "blocks_outbound v" "calls st' = AList.update k v (calls st)"
  shows "length (activeOutbound st') = Suc 0"
proof -
  have "\<forall>e \<in> set cs. \<not> blocks_outbound (snd e) \<Longrightarrow>
        filter blocks_outbound (map snd (AList.update k v cs)) = [v]" for cs
    using assms(2) by (induction cs) auto
  moreover from assms(1) have "\<forall>e \<in> set (calls st). \<not> blocks_outbound (snd e)"
    by (auto simp: activeOutbound_def filter_empty_conv)
  ultimately show ?thesis
    unfolding activeOutbound_def assms(3) by simp
qed

lemma getPermissionStatus_calls [simp]:
  "calls (snd (getPermissionStatus phone now st)) = calls st"
  "emitted (snd (getPermissionStatus phone now st)) = emitted st"
  "timers (snd (getPermissionStatus phone now st)) = timers st"
  "closedPeers (snd (getPermissionStatus phone now st)) = closedPeers st"
  by (simp_all add: getPermissionStatus_def split: option.splits)

lemma activeOutbound_cong: "calls st = calls st' \<Longrightarrow> activeOutbound st = activeOutbound st'"
  by (simp add: activeOutbound_def)

lemma granted_unchanged:
  "granted (fst (getPermissionStatus phone now st)) \<Longrightarrow> snd (getPermissionStatus phone now st) = st"
  by (auto simp: getPermissionStatus_def split: option.splits if_splits)


lemma bridge_active:
  assumes "activeOutbound st = []"
  shows "(case fst (startOutboundCallWithServerWebRTC phone now x st) of
            Inl e \<Rightarrow> activeOutbound (snd (startOutboundCallWithServerWebRTC phone now x st)) = []
          | Inr r \<Rightarrow> length (activeOutbound (snd (startOutboundCallWithServerWebRTC phone now x st))) = 1)"
proof (cases "createOfferSdp x")
  case (Inl m)
  then show ?thesis by (simp add: startOutboundCallWithServerWebRTC_def assms)
next
  case offer: (Inr sdp)
  show ?thesis
  proof (cases "initiateOutboundCall x")
    case (Inl m)
    with offer show ?thesis by (simp add: startOutboundCallWithServerWebRTC_def assms)
  next
    case (Inr r)
    with offer show ?thesis
      by (simp add: startOutboundCallWithServerWebRTC_def Let_def)
         (rule active_after_insert [OF assms], simp_all add: blocks_outbound_def)
  qed
qed

lemma relay_active:
  assumes "activeOutbound st = []"
  shows "length (activeOutbound (snd (startOutboundCallBrowserOnly phone socket now st))) = 1"
    and "\<exists>r. fst (startOutboundCallBrowserOnly phone socket now st) = Inr r"
proof -
  show "length (activeOutbound (snd (startOutboundCallBrowserOnly phone socket now st))) = 1"
    by (simp add: startOutboundCallBrowserOnly_def Let_def)
       (rule active_after_insert [OF assms], simp_all add: blocks_outbound_def)
  show "\<exists>r. fst (startOutboundCallBrowserOnly phone socket now st) = Inr r"
    by (simp add: startOutboundCallBrowserOnly_def Let_def)
qed

lemma start_active:
  "(case fst (startOutboundCall phone socket now x st) of
      Inl e \<Rightarrow> length (activeOutbound (snd (startOutboundCall phone socket now x st)))
                 \<le> length (activeOutbound st)
    | Inr r \<Rightarrow> length (activeOutbound (snd (startOutboundCall phone socket now x st))) = 1)"
proof -
  obtain p st1 where p: "getPermissionStatus phone now st = (p, st1)" by force
  then have c1: "calls st1 = calls st"
    using getPermissionStatus_calls(1) [of phone now st] by simp
  then have a1: "activeOutbound st1 = activeOutbound st" by (rule activeOutbound_cong)
  show ?thesis
  proof (cases "granted p")
    case False
    then show ?thesis by (simp add: startOutboundCall_alt p a1)
  next
    case g: True
    obtain r st2 where sc: "scanOutbound now (calls st1) st1 = (r, st2)" by force
    show ?thesis
    proof (cases r)
      case (Some e)
      have "length (activeOutbound st2) \<le> length (activeOutbound st1)"
        using scan_active_le [of now "calls st1" st1] by (simp add: sc)
      with Some g show ?thesis by (simp add: startOutboundCall_alt p sc a1)
    next
      case None
      then have no: "activeOutbound st2 = []"
        using scan_ok_no_active [of now st1] by (simp add: sc)
      show ?thesis
      proof (cases "isAvailable x")
        case True
        with g None show ?thesis
          using bridge_active [OF no, of phone now x]
          by (auto simp: startOutboundCall_alt p sc split: sum.splits)
      next
        case False
        with g None show ?thesis
          using relay_active [OF no, of phone socket now]
          by (auto simp: startOutboundCall_alt p sc split: sum.splits)
      qed
    qed
  qed
qed

lemma start_conflict:
  assumes g: "granted (fst (getPermissionStatus phone now st))"
      and b: "\<exists>(k, s) \<in> set (calls st). blocks_outbound s \<and> \<not> stale now s"
  shows "\<exists>(k, s) \<in> set (calls st). blocks_outbound s \<and> \<not> stale now s \<and>
            fst (startOutboundCall phone socket now x st) = Inl (Outbound_in_progress k (status s))"
    and "map fst (calls (snd (startOutboundCall phone socket now x st))) = map fst (calls st)"
proof -
  from g have p: "getPermissionStatus phone now st = (fst (getPermissionStatus phone now st), st)"
    using granted_unchanged [OF g] by (metis prod.collapse)
  obtain r st2 where sc: "scanOutbound now (calls st) st = (r, st2)" by force
  from scan_conflict [OF b, of st] obtain k s where
    ks: "(k, s) \<in> set (calls st)" "blocks_outbound s" "\<not> stale now s"
        "r = Some (Outbound_in_progress k (status s))"
    by (auto simp: sc)
  have res: "startOutboundCall phone socket now x st = (Inl (Outbound_in_progress k (status s)), st2)"
    unfolding startOutboundCall_alt by (subst p) (simp add: g sc ks)
  from ks res show "\<exists>(k, s) \<in> set (calls st). blocks_outbound s \<and> \<not> stale now s \<and>
            fst (startOutboundCall phone socket now x st) = Inl (Outbound_in_progress k (status s))"
    by auto
  have "st2 = snd (scanOutbound now (calls st) st)" by (simp add: sc)
  then show "map fst (calls (snd (startOutboundCall phone socket now x st))) = map fst (calls st)"
    by (simp add: res)
qed

subsection \<open>One outbound call at a time\<close>

text \<open>
  Claim C1, as the code has it. When the phone's permission is granted and not expired, and
  some outbound call is ringing, accepted, connected or waiting for the browser's offer for
  at most thirty seconds, \<open>startOutboundCall\<close> throws the error that names such a call and
  its status, and the registry has the same keys afterwards: no call is created. A request
  for a phone whose permission is missing or expired fails with the permission error and
  leaves the registry as it is. Both happen before anything is awaited. A request that runs
  from its check to its write with no other handler run in between (in browser-only mode
  every request does) leaves at most one outbound call in those four statuses if there was
  at most one before, and leaves exactly one, the call it created, if it succeeds.
\<close>

theorem startOutboundCall_one_outbound:
  "(granted (fst (getPermissionStatus phone now st)) \<and>
    (\<exists>(k, s) \<in> set (calls st). blocks_outbound s \<and> \<not> stale now s) \<longrightarrow>
      (\<exists>(k, s) \<in> set (calls st). blocks_outbound s \<and> \<not> stale now s \<and>
         fst (startOutboundCall phone socket now x st) = Inl (Outbound_in_progress k (status s))) \<and>
      map fst (calls (snd (startOutboundCall phone socket now x st))) = map fst (calls st)) \<and>
   (length (activeOutbound st) \<le> 1 \<longrightarrow>
      length (activeOutbound (snd (startOutboundCall phone socket now x st))) \<le> 1) \<and>
   ((\<exists>r. fst (startOutboundCall phone socket now x st) = Inr r) \<longrightarrow>
      length (activeOutbound (snd (startOutboundCall phone socket now x st))) = 1) \<and>
   (\<not> granted (fst (getPermissionStatus phone now st)) \<longrightarrow>
      (fst (startOutboundCall phone socket now x st) = Inl Permission_expired \<or>
       fst (startOutboundCall phone socket now x st) = Inl No_permission) \<and>
      calls (snd (startOutboundCall phone socket now x st)) = calls st)"
proof (intro conjI impI)
  assume n: "\<not> granted (fst (getPermissionStatus phone now st))"
  then show "fst (startOutboundCall phone socket now x st) = Inl Permission_expired \<or>
       fst (startOutboundCall phone socket now x st) = Inl No_permission"
    by (simp add: startOutboundCall_alt split_beta)
  from n show "calls (snd (startOutboundCall phone socket now x st)) = calls st"
    by (simp add: startOutboundCall_alt split_beta)
next
  assume h: "granted (fst (getPermissionStatus phone now st)) \<and>
    (\<exists>(k, s) \<in> set (calls st). blocks_outbound s \<and> \<not> stale now s)"
  then show "\<exists>(k, s) \<in> set (calls st). blocks_outbound s \<and> \<not> stale now s \<and>
         fst (startOutboundCall phone socket now x st) = Inl (Outbound_in_progress k (status s))"
    using start_conflict(1) by blast
  from h show "map fst (calls (snd (startOutboundCall phone socket now x st))) = map fst (calls st)"
    using start_conflict(2) by blast
next
  assume "length (activeOutbound st) \<le> 1"
  then show "length (activeOutbound (snd (startOutboundCall phone socket now x st))) \<le> 1"
    using start_active [of phone socket now x st] by (auto split: sum.splits)
next
  assume "\<exists>r. fst (startOutboundCall phone socket now x st) = Inr r"
  then show "length (activeOutbound (snd (startOutboundCall phone socket now x st))) = 1"
    using start_active [of phone socket now x st] by (auto split: sum.splits)
qed

text \<open>The conflict with a ringing call, the success on an empty registry, and the refusal
  without a grant.\<close>

theorem startOutboundCall_one_outbound_witness:
  "granted (fst (getPermissionStatus ''+15551234567'' 1000
      \<lparr>calls = [(''wacid.0'', a_call ''wacid.0'' Outbound Ringing 0)], permissions = granted_72h,
       emitted = [], closedPeers = [], timers = []\<rparr>)) \<and>
   blocks_outbound (a_call ''wacid.0'' Outbound Ringing 0) \<and>
   \<not> stale 1000 (a_call ''wacid.0'' Outbound Ringing 0) \<and>
   startOutboundCall ''+15551234567'' None 1000 (answers False)
      \<lparr>calls = [(''wacid.0'', a_call ''wacid.0'' Outbound Ringing 0)], permissions = granted_72h,
       emitted = [], closedPeers = [], timers = []\<rparr>
     = (Inl (Outbound_in_progress ''wacid.0'' Ringing),
        \<lparr>calls = [(''wacid.0'', a_call ''wacid.0'' Outbound Ringing 0)], permissions = granted_72h,
         emitted = [], closedPeers = [], timers = []\<rparr>) \<and>
   length (activeOutbound (init_system\<lparr>permissions := granted_72h\<rparr>)) \<le> 1 \<and>
   fst (startOutboundCall ''+15551234567'' None 1000 (answers False)
          (init_system\<lparr>permissions := granted_72h\<rparr>))
     = Inr (Started (''call_'' @ string_of_int 1000) Awaiting_browser_sdp (Some ''browser-only'')) \<and>
   length (activeOutbound (snd (startOutboundCall ''+15551234567'' None 1000 (answers False)
          (init_system\<lparr>permissions := granted_72h\<rparr>)))) = 1 \<and>
   \<not> granted (fst (getPermissionStatus ''+15551234567'' 1000 init_system)) \<and>
   fst (startOutboundCall ''+15551234567'' None 1000 (answers False) init_system)
     = Inl No_permission"
  using startOutboundCall_one_outbound [of "''+15551234567''" 1000 init_system None
          "answers False"]
        startOutboundCall_one_outbound [of "''+15551234567''" 1000
          "\<lparr>calls = [(''wacid.0'', a_call ''wacid.0'' Outbound Ringing 0)], permissions = granted_72h,
            emitted = [], closedPeers = [], timers = []\<rparr>" None "answers False"]
        startOutboundCall_one_outbound [of "''+15551234567''" 1000
          "init_system\<lparr>permissions := granted_72h\<rparr>" None "answers False"]
  by (simp add: startOutboundCall_alt getPermissionStatus_def granted_72h_def a_call_def
        blocks_outbound_def stale_def answers_def init_system_def activeOutbound_def
        startOutboundCallBrowserOnly_def Let_def emit_def)

text \<open>
  The claim as written promises the conflict error to every request, and one live outbound
  call at any time. The permission check comes first: a request for a phone with no grant
  fails with the permission error while another outbound call is ringing. A status event
  revives a finished call past the check: after an outbound call was terminated and a new
  one started, a late \<open>ringing\<close> event for the old id leaves two outbound calls live, one
  ringing and one waiting for the browser's offer. And in server mode two requests that
  overlap both pass the check on the empty registry, at 1000 and 1001, before either has
  written; their replies come at 1002 and 1003, both requests succeed, and two outbound
  calls are ringing.
\<close>

theorem startOutboundCall_one_outbound_counterexample:
  "startOutboundCall ''+15551234567'' None 1000 (answers False)
      \<lparr>calls = [(''wacid.0'', a_call ''wacid.0'' Outbound Ringing 0)], permissions = [],
       emitted = [], closedPeers = [], timers = []\<rparr>
     = (Inl No_permission,
        \<lparr>calls = [(''wacid.0'', a_call ''wacid.0'' Outbound Ringing 0)], permissions = [],
         emitted = [], closedPeers = [], timers = []\<rparr>) \<and>
   activeOutbound
     (run [(Grant ''+15551234567'' 0, answers False),
           (Start ''+15551234567'' None 1000, answers False),
           (Browser_offer (''call_'' @ string_of_int 1000) ''v=0 offer'', answers False),
           (Terminate_event ''wacid.1'', answers False),
           (Start ''+15551234567'' None 2000, answers False),
           (Status_event ''wacid.1'' ''ringing'', answers False)] init_system)
     = [\<lparr>callId = ''wacid.1'', direction = Outbound, recipientPhone = ''+15551234567'',
         status = Ringing, socketId = None, whatsappSdpOffer = None, whatsappPeer = None,
         browserPeer = None, createdAt = 1000\<rparr>,
        \<lparr>callId = ''call_'' @ string_of_int 2000, direction = Outbound,
         recipientPhone = ''+15551234567'', status = Awaiting_browser_sdp, socketId = None,
         whatsappSdpOffer = None, whatsappPeer = None, browserPeer = None, createdAt = 2000\<rparr>] \<and>
   startOutboundCall_scan ''+15551234567'' 1000 (init_system\<lparr>permissions := granted_72h\<rparr>)
     = (None, init_system\<lparr>permissions := granted_72h\<rparr>) \<and>
   startOutboundCall_scan ''+15551234567'' 1001 (init_system\<lparr>permissions := granted_72h\<rparr>)
     = (None, init_system\<lparr>permissions := granted_72h\<rparr>) \<and>
   fst (startOutboundCallWithServerWebRTC ''+15551234567'' 1002 (answers True)
          (init_system\<lparr>permissions := granted_72h\<rparr>))
     = Inr (Started ''wacid.1'' Ringing None) \<and>
   fst (startOutboundCallWithServerWebRTC ''+15551234567'' 1003
          ((answers True)\<lparr>createPeerConnection := 2, initiateOutboundCall := naming ''wacid.2''\<rparr>)
          (snd (startOutboundCallWithServerWebRTC ''+15551234567'' 1002 (answers True)
                  (init_system\<lparr>permissions := granted_72h\<rparr>))))
     = Inr (Started ''wacid.2'' Ringing None) \<and>
   activeOutbound
     (snd (startOutboundCallWithServerWebRTC ''+15551234567'' 1003
          ((answers True)\<lparr>createPeerConnection := 2, initiateOutboundCall := naming ''wacid.2''\<rparr>)
          (snd (startOutboundCallWithServerWebRTC ''+15551234567'' 1002 (answers True)
                  (init_system\<lparr>permissions := granted_72h\<rparr>)))))
     = [\<lparr>callId = ''wacid.1'', direction = Outbound, recipientPhone = ''+15551234567'',
         status = Ringing, socketId = None, whatsappSdpOffer = None, whatsappPeer = Some 1,
         browserPeer = None, createdAt = 1002\<rparr>,
        \<lparr>callId = ''wacid.2'', direction = Outbound, recipientPhone = ''+15551234567'',
         status = Ringing, socketId = None, whatsappSdpOffer = None, whatsappPeer = Some 2,
         browserPeer = None, createdAt = 1003\<rparr>]"
  by (simp add: init_system_def answers_def handlePermissionGranted_def startOutboundCall_alt
        getPermissionStatus_def startOutboundCallBrowserOnly_def handleBrowserSdpOffer_def
        handleTerminate_def handleOutboundStatus_def statusTarget_def pickCallId_def
        blocks_outbound_def mutate_def emit_def cleanup_def peers_of_def Let_def
        activeOutbound_def startOutboundCall_scan_def granted_72h_def naming_def
        startOutboundCallWithServerWebRTC_def)

subsection \<open>A stale call is reclaimed\<close>

lemma start_after_scan:
  assumes "granted (fst (getPermissionStatus phone now st))"
      and "fst (scanOutbound now (calls st) st) = None"
  shows "startOutboundCall phone socket now x st =
           (if isAvailable x
            then startOutboundCallWithServerWebRTC phone now x (snd (scanOutbound now (calls st) st))
            else startOutboundCallBrowserOnly phone socket now (snd (scanOutbound now (calls st) st)))"
proof -
  have p: "getPermissionStatus phone now st = (fst (getPermissionStatus phone now st), st)"
    using granted_unchanged [OF assms(1)] by (metis prod.collapse)
  obtain st2 where sc: "scanOutbound now (calls st) st = (None, st2)"
    using assms(2) by (metis prod.collapse)
  show ?thesis
    unfolding startOutboundCall_alt by (subst p) (simp add: assms(1) sc)
qed

lemma map_of_set_status_in:
  "map_of (map (set_status_in K v) cs) k =
     map_option (\<lambda>s. if k \<in> K then s\<lparr>status := v\<rparr> else s) (map_of cs k)"
  by (induction cs) (auto simp: set_status_in_def)

lemma expiredPeers_all:
  "\<forall>(k, s) \<in> set todo. blocks_outbound s \<longrightarrow> stale now s \<Longrightarrow>
   expiredPeers now todo = concat (map (peers_of \<circ> snd) (filter (blocks_outbound \<circ> snd) todo))"
  by (induction todo) auto

lemma relay_fields [simp]:
  "timers (snd (startOutboundCallBrowserOnly phone socket now st)) = timers st"
  "closedPeers (snd (startOutboundCallBrowserOnly phone socket now st)) = closedPeers st"
  by (simp_all add: startOutboundCallBrowserOnly_def Let_def)

lemma bridge_fields [simp]:
  "timers (snd (startOutboundCallWithServerWebRTC phone now x st)) = timers st"
  "closedPeers (snd (startOutboundCallWithServerWebRTC phone now x st)) = closedPeers st"
  by (simp_all add: startOutboundCallWithServerWebRTC_def Let_def split: sum.splits)

lemma relay_creates:
  "\<exists>k v m c. startOutboundCallBrowserOnly phone socket now st =
      (Inr (Started k v m), emit (case socket of Some i \<Rightarrow> To_socket i | None \<Rightarrow> Broadcast)
                              (Generate_sdp_offer k phone) (st\<lparr>calls := AList.update k c (calls st)\<rparr>)) \<and>
      callId c = k \<and> direction c = Outbound \<and> recipientPhone c = phone \<and> createdAt c = now \<and>
      status c = Awaiting_browser_sdp \<and> v = Awaiting_browser_sdp"
  unfolding startOutboundCallBrowserOnly_def Let_def
  by (rule exI, rule exI, rule exI, rule exI, intro conjI, rule refl) simp_all

lemma bridge_creates:
  assumes "createOfferSdp x = Inr sdp" "initiateOutboundCall x = Inr a"
  shows "\<exists>k v m c. startOutboundCallWithServerWebRTC phone now x st =
      (Inr (Started k v m), emit Broadcast (Call_ringing k phone)
                              (st\<lparr>calls := AList.update k c (calls st)\<rparr>)) \<and>
      callId c = k \<and> direction c = Outbound \<and> recipientPhone c = phone \<and> createdAt c = now \<and>
      status c = Ringing \<and> v = Ringing"
  unfolding startOutboundCallWithServerWebRTC_def Let_def assms sum.case
  by (rule exI, rule exI, rule exI, rule exI, intro conjI, rule refl) simp_all

lemma stale_reclaimed:
  assumes g: "granted (fst (getPermissionStatus phone now st))"
      and d: "distinct (map fst (calls st))"
      and m: "(k0, s0) \<in> set (calls st)" "direction s0 = Outbound" "stale now s0"
      and a: "\<forall>(k, s) \<in> set (calls st). blocks_outbound s \<longrightarrow> stale now s"
      and ok: "\<not> isAvailable x \<or> (\<exists>sdp a. createOfferSdp x = Inr sdp \<and> initiateOutboundCall x = Inr a)"
  shows "\<exists>k v m c. fst (startOutboundCall phone socket now x st) = Inr (Started k v m) \<and>
           map_of (calls (snd (startOutboundCall phone socket now x st))) k = Some c \<and>
           new_outbound phone now k c \<and> status c = v \<and>
           (k \<noteq> k0 \<longrightarrow> map_of (calls (snd (startOutboundCall phone socket now x st))) k0
                           = Some (s0\<lparr>status := Expired\<rparr>))"
    and "k0 \<in> set (timers (snd (startOutboundCall phone socket now x st)))"
    and "set (peers_of s0) \<subseteq> set (closedPeers (snd (startOutboundCall phone socket now x st)))"
proof -
  let ?st2 = "snd (scanOutbound now (calls st) st)"
  from a have none: "fst (scanOutbound now (calls st) st) = None" by (simp add: scan_ok_iff)
  note eq = start_after_scan [OF g none, of socket x]
  from m have b0: "blocks_outbound s0" by (simp add: blocks_outbound_def stale_def)
  from m(1) b0 have inE: "k0 \<in> set (expiredKeys now (calls st))"
    by (force simp: expiredKeys_all [OF a])
  from d m(1) have look: "map_of (calls st) k0 = Some s0" by simp
  have old: "map_of (calls ?st2) k0 = Some (s0\<lparr>status := Expired\<rparr>)"
    by (simp add: scan_calls map_of_set_status_in look inE)
  have tm: "timers ?st2 = timers st @ expiredKeys now (calls st)"
    by (rule scan_timers) simp
  have "\<forall>(k, s) \<in> set (calls st). \<exists>c. map_of (calls st) k = Some c \<and> peers_of c = peers_of s"
    using d by auto
  then have cl: "closedPeers ?st2 = closedPeers st @ expiredPeers now (calls st)"
    by (rule scan_closedPeers)
  from m(1) b0 have pe: "set (peers_of s0) \<subseteq> set (expiredPeers now (calls st))"
    by (force simp: expiredPeers_all [OF a])
  show "k0 \<in> set (timers (snd (startOutboundCall phone socket now x st)))"
    using inE by (simp add: eq tm)
  show "set (peers_of s0) \<subseteq> set (closedPeers (snd (startOutboundCall phone socket now x st)))"
    using pe by (auto simp: eq cl)
  show "\<exists>k v m c. fst (startOutboundCall phone socket now x st) = Inr (Started k v m) \<and>
           map_of (calls (snd (startOutboundCall phone socket now x st))) k = Some c \<and>
           new_outbound phone now k c \<and> status c = v \<and>
           (k \<noteq> k0 \<longrightarrow> map_of (calls (snd (startOutboundCall phone socket now x st))) k0
                           = Some (s0\<lparr>status := Expired\<rparr>))"
  proof (cases "isAvailable x")
    case False
    from relay_creates [of phone socket now ?st2] obtain k v m c where
      "startOutboundCallBrowserOnly phone socket now ?st2 =
        (Inr (Started k v m), emit (case socket of Some i \<Rightarrow> To_socket i | None \<Rightarrow> Broadcast)
                              (Generate_sdp_offer k phone) (?st2\<lparr>calls := AList.update k c (calls ?st2)\<rparr>))"
      "new_outbound phone now k c" "status c = v"
      unfolding new_outbound_def by blast
    with False old show ?thesis
      by (auto simp: eq AList.update_conv')
  next
    case True
    with ok obtain sdp a where "createOfferSdp x = Inr sdp" "initiateOutboundCall x = Inr a" by auto
    from bridge_creates [OF this, of phone now ?st2] obtain k v m c where
      "startOutboundCallWithServerWebRTC phone now x ?st2 =
        (Inr (Started k v m), emit Broadcast (Call_ringing k phone)
                              (?st2\<lparr>calls := AList.update k c (calls ?st2)\<rparr>))"
      "new_outbound phone now k c" "status c = v"
      unfolding new_outbound_def by blast
    with True old show ?thesis
      by (auto simp: eq AList.update_conv')
  qed
qed

text \<open>
  Claim C6, as the code has it. Let an outbound call wait for the browser's offer for more
  than thirty seconds, let the requested phone's permission be granted and not expired, and
  let every outbound call that is waiting, ringing, accepted or connected be such a stale
  one. Then \<open>startOutboundCall\<close> succeeds in browser-only mode, and in server mode when the
  bridge produces an offer and the Graph API accepts it and no other handler run comes in
  between: it returns the new call, which is in the registry under its id; the stale call
  is still in the registry with status \<open>expired\<close> (unless the new call took its very
  key), the timer that removes it is set and its peers are closed.
\<close>

theorem stale_call_is_reclaimed:
  assumes "granted (fst (getPermissionStatus phone now st))"
      and "distinct (map fst (calls st))"
      and "(k0, s0) \<in> set (calls st)" "direction s0 = Outbound" "stale now s0"
      and "\<forall>(k, s) \<in> set (calls st). blocks_outbound s \<longrightarrow> stale now s"
      and "\<not> isAvailable x \<or>
           (\<exists>sdp a. createOfferSdp x = Inr sdp \<and> initiateOutboundCall x = Inr a)"
  shows "(\<exists>k v m c. fst (startOutboundCall phone socket now x st) = Inr (Started k v m) \<and>
            map_of (calls (snd (startOutboundCall phone socket now x st))) k = Some c \<and>
            new_outbound phone now k c \<and> status c = v \<and>
            (k \<noteq> k0 \<longrightarrow> map_of (calls (snd (startOutboundCall phone socket now x st))) k0
                            = Some (s0\<lparr>status := Expired\<rparr>))) \<and>
         k0 \<in> set (timers (snd (startOutboundCall phone socket now x st))) \<and>
         set (peers_of s0) \<subseteq> set (closedPeers (snd (startOutboundCall phone socket now x st)))"
  using stale_reclaimed [OF assms] by blast

text \<open>A call created at time 0 and still waiting at 30001 ms.\<close>

theorem stale_call_is_reclaimed_witness:
  "granted (fst (getPermissionStatus ''+15551234567'' 30001
      \<lparr>calls = [(''call_0'', a_call ''call_0'' Outbound Awaiting_browser_sdp 0)],
       permissions = granted_72h, emitted = [], closedPeers = [], timers = []\<rparr>)) \<and>
   stale 30001 (a_call ''call_0'' Outbound Awaiting_browser_sdp 0) \<and>
   \<not> isAvailable (answers False) \<and>
   (\<exists>k v m c. fst (startOutboundCall ''+15551234567'' None 30001 (answers False)
      \<lparr>calls = [(''call_0'', a_call ''call_0'' Outbound Awaiting_browser_sdp 0)],
       permissions = granted_72h, emitted = [], closedPeers = [], timers = []\<rparr>)
         = Inr (Started k v m) \<and>
      map_of (calls (snd (startOutboundCall ''+15551234567'' None 30001 (answers False)
      \<lparr>calls = [(''call_0'', a_call ''call_0'' Outbound Awaiting_browser_sdp 0)],
       permissions = granted_72h, emitted = [], closedPeers = [], timers = []\<rparr>))) k = Some c \<and>
      new_outbound ''+15551234567'' 30001 k c \<and> status c = v \<and>
      (k \<noteq> ''call_0'' \<longrightarrow>
        map_of (calls (snd (startOutboundCall ''+15551234567'' None 30001 (answers False)
      \<lparr>calls = [(''call_0'', a_call ''call_0'' Outbound Awaiting_browser_sdp 0)],
       permissions = granted_72h, emitted = [], closedPeers = [], timers = []\<rparr>))) ''call_0''
          = Some ((a_call ''call_0'' Outbound Awaiting_browser_sdp 0)\<lparr>status := Expired\<rparr>))) \<and>
   ''call_0'' \<in> set (timers (snd (startOutboundCall ''+15551234567'' None 30001 (answers False)
      \<lparr>calls = [(''call_0'', a_call ''call_0'' Outbound Awaiting_browser_sdp 0)],
       permissions = granted_72h, emitted = [], closedPeers = [], timers = []\<rparr>)))"
proof -
  let ?st = "\<lparr>calls = [(''call_0'', a_call ''call_0'' Outbound Awaiting_browser_sdp 0)],
       permissions = granted_72h, emitted = [], closedPeers = [], timers = []\<rparr>"
  have g: "granted (fst (getPermissionStatus ''+15551234567'' 30001 ?st))"
    by (simp add: getPermissionStatus_def granted_72h_def)
  have s: "stale 30001 (a_call ''call_0'' Outbound Awaiting_browser_sdp 0)"
    by (simp add: stale_def a_call_def)
  have x: "\<not> isAvailable (answers False)" by (simp add: answers_def)
  have "distinct (map fst (calls ?st))" by simp
  moreover have "(''call_0'', a_call ''call_0'' Outbound Awaiting_browser_sdp 0) \<in> set (calls ?st)"
    by simp
  moreover have "direction (a_call ''call_0'' Outbound Awaiting_browser_sdp 0) = Outbound"
    by (simp add: a_call_def)
  moreover have "\<forall>(k, s) \<in> set (calls ?st). blocks_outbound s \<longrightarrow> stale 30001 s"
    using s by simp
  moreover have "\<not> isAvailable (answers False) \<or>
     (\<exists>sdp a. createOfferSdp (answers False) = Inr sdp \<and>
              initiateOutboundCall (answers False) = Inr a)"
    using x by simp
  ultimately show ?thesis
    using stale_call_is_reclaimed [of "''+15551234567''" 30001 ?st "''call_0''"
            "a_call ''call_0'' Outbound Awaiting_browser_sdp 0" "answers False" None] g s x
    by blast
qed

text \<open>
  The claim as written lets the next request reclaim the stale call and succeed, whatever
  else the registry holds. Take the state after a late \<open>ringing\<close> event has revived a
  terminated call: that call, ringing, stands in the registry before a call that has been
  waiting for the browser's offer since 2000. A request at 40000 for the phone with the
  grant meets the ringing call first and throws the conflict error; the waiting call,
  38 seconds old, is not expired and nothing is created. In server mode the stale call is
  expired and cleaned up, and then the request fails all the same when the Graph API
  refuses the new call. And a request for a phone with no grant stops at the permission
  check and leaves the stale call waiting.
\<close>

theorem stale_call_blocked_counterexample:
  "calls (run [(Grant ''+15551234567'' 0, answers False),
               (Start ''+15551234567'' None 1000, answers False),
               (Browser_offer (''call_'' @ string_of_int 1000) ''v=0 offer'', answers False),
               (Terminate_event ''wacid.1'', answers False),
               (Start ''+15551234567'' None 2000, answers False),
               (Status_event ''wacid.1'' ''ringing'', answers False)] init_system)
     = [(''wacid.1'', a_call ''wacid.1'' Outbound Ringing 1000),
        (''call_'' @ string_of_int 2000,
         a_call (''call_'' @ string_of_int 2000) Outbound Awaiting_browser_sdp 2000)] \<and>
   startOutboundCall ''+15551234567'' None 40000 (answers False)
     (run [(Grant ''+15551234567'' 0, answers False),
           (Start ''+15551234567'' None 1000, answers False),
           (Browser_offer (''call_'' @ string_of_int 1000) ''v=0 offer'', answers False),
           (Terminate_event ''wacid.1'', answers False),
           (Start ''+15551234567'' None 2000, answers False),
           (Status_event ''wacid.1'' ''ringing'', answers False)] init_system)
     = (Inl (Outbound_in_progress ''wacid.1'' Ringing),
        run [(Grant ''+15551234567'' 0, answers False),
           (Start ''+15551234567'' None 1000, answers False),
           (Browser_offer (''call_'' @ string_of_int 1000) ''v=0 offer'', answers False),
           (Terminate_event ''wacid.1'', answers False),
           (Start ''+15551234567'' None 2000, answers False),
           (Status_event ''wacid.1'' ''ringing'', answers False)] init_system) \<and>
   startOutboundCall ''+15551234567'' None 30001
      ((answers True)\<lparr>initiateOutboundCall := Inl ''Request failed with status code 400''\<rparr>)
      \<lparr>calls = [(''call_0'', a_call ''call_0'' Outbound Awaiting_browser_sdp 0)],
       permissions = granted_72h, emitted = [], closedPeers = [], timers = []\<rparr>
     = (Inl (External_failure ''Request failed with status code 400''),
        \<lparr>calls = [(''call_0'', a_call ''call_0'' Outbound Expired 0)],
         permissions = granted_72h, emitted = [], closedPeers = [], timers = [''call_0'']\<rparr>) \<and>
   startOutboundCall ''+15550000000'' None 30001 (answers False)
      \<lparr>calls = [(''call_0'', a_call ''call_0'' Outbound Awaiting_browser_sdp 0)],
       permissions = granted_72h, emitted = [], closedPeers = [], timers = []\<rparr>
     = (Inl No_permission,
        \<lparr>calls = [(''call_0'', a_call ''call_0'' Outbound Awaiting_browser_sdp 0)],
         permissions = granted_72h, emitted = [], closedPeers = [], timers = []\<rparr>)"
  by (simp add: init_system_def answers_def handlePermissionGranted_def startOutboundCall_alt
        getPermissionStatus_def startOutboundCallBrowserOnly_def handleBrowserSdpOffer_def
        handleTerminate_def handleOutboundStatus_def statusTarget_def pickCallId_def
        blocks_outbound_def mutate_def emit_def cleanup_def peers_of_def Let_def a_call_def
        granted_72h_def startOutboundCallWithServerWebRTC_def)

subsection \<open>Status events\<close>

lemma find_first:
  "\<forall>e \<in> set pre. \<not> P e \<Longrightarrow> P e \<Longrightarrow> find P (pre @ e # post) = Some e"
  by (induction pre) auto

lemma mutate_split:
  assumes "calls st = pre @ (i, s) # post" "distinct (map fst (calls st))"
  shows "calls (mutate i f st) = pre @ (i, f s) # post"
proof -
  from assms have "i \<notin> fst ` set pre" "i \<notin> fst ` set post" by auto
  then have "map (\<lambda>(k, c). if k = i then (k, f c) else (k, c)) pre = pre"
            "map (\<lambda>(k, c). if k = i then (k, f c) else (k, c)) post = post"
    by (force intro!: map_idI)+
  then show ?thesis by (simp add: mutate_def assms(1))
qed

lemma mutate_twice [simp]: "mutate k f (mutate k g st) = mutate k (f \<circ> g) st"
  by (simp add: mutate_def split_beta o_def)

lemma status_fallback_target:
  assumes "map_of (calls st) k = None" "calls st = pre @ (i, s) # post"
      "\<forall>(j, c) \<in> set pre. \<not> status_fallback c" "status_fallback s"
  shows "statusTarget k st = Some (i, s)"
proof -
  have "find (\<lambda>(i, s). status_fallback s) (pre @ (i, s) # post) = Some (i, s)"
    by (rule find_first) (use assms(3,4) in auto)
  then have "find (\<lambda>(i, s). status_fallback s) (calls st) = Some (i, s)"
    by (simp only: assms(2))
  then show ?thesis
    by (simp only: statusTarget_def assms(1) option.case)
qed

text \<open>
  Claim C5, as the code has it. A status event whose call id is not a key of the registry
  is applied to the first call, in insertion order, that is outbound and ringing, accepted
  or waiting for the browser's offer, whether or not a later call matches too: that call
  takes the status a \<open>ringing\<close>, \<open>accepted\<close> or \<open>rejected\<close> event names, the matching
  event is broadcast, and any other status value is only broadcast. When no call matches,
  the event changes nothing.
\<close>

theorem status_fallback_first_match:
  assumes "map_of (calls st) k = None"
  shows "((\<forall>(i, s) \<in> set (calls st). \<not> status_fallback s) \<longrightarrow> handleOutboundStatus k v st = st) \<and>
         (calls st = pre @ (i, s) # post \<and> distinct (map fst (calls st)) \<and>
          (\<forall>(j, c) \<in> set pre. \<not> status_fallback c) \<and> status_fallback s \<longrightarrow>
            calls (handleOutboundStatus k ''ringing'' st) = pre @ (i, s\<lparr>status := Ringing\<rparr>) # post \<and>
            emitted (handleOutboundStatus k ''ringing'' st)
              = emitted st @ [(Broadcast, Call_ringing k (recipientPhone s))] \<and>
            calls (handleOutboundStatus k ''accepted'' st) = pre @ (i, s\<lparr>status := Accepted\<rparr>) # post \<and>
            emitted (handleOutboundStatus k ''accepted'' st)
              = emitted st @ [(Broadcast, Call_accepted k (recipientPhone s))] \<and>
            calls (handleOutboundStatus k ''rejected'' st) = pre @ (i, s\<lparr>status := Rejected\<rparr>) # post \<and>
            emitted (handleOutboundStatus k ''rejected'' st)
              = emitted st @ [(Broadcast, Call_rejected k (recipientPhone s))] \<and>
            (v \<noteq> ''ringing'' \<and> v \<noteq> ''accepted'' \<and> v \<noteq> ''rejected'' \<longrightarrow>
               handleOutboundStatus k v st = emit Broadcast (Call_status k v) st))"
proof (intro conjI impI)
  assume "\<forall>(i, s) \<in> set (calls st). \<not> status_fallback s"
  then have "find (\<lambda>(i, s). status_fallback s) (calls st) = None"
    by (auto simp: find_None_iff)
  with assms show "handleOutboundStatus k v st = st"
    by (simp add: handleOutboundStatus_def statusTarget_def)
next
  assume h: "calls st = pre @ (i, s) # post \<and> distinct (map fst (calls st)) \<and>
          (\<forall>(j, c) \<in> set pre. \<not> status_fallback c) \<and> status_fallback s"
  then have t: "statusTarget k st = Some (i, s)"
    using status_fallback_target [OF assms] by blast
  from h have sp: "calls (mutate i f st) = pre @ (i, f s) # post" for f
    using mutate_split by blast
  show "calls (handleOutboundStatus k ''ringing'' st) = pre @ (i, s\<lparr>status := Ringing\<rparr>) # post"
    by (simp add: handleOutboundStatus_def t sp)
  show "calls (handleOutboundStatus k ''accepted'' st) = pre @ (i, s\<lparr>status := Accepted\<rparr>) # post"
    by (simp add: handleOutboundStatus_def t sp)
  show "calls (handleOutboundStatus k ''rejected'' st) = pre @ (i, s\<lparr>status := Rejected\<rparr>) # post"
    by (simp add: handleOutboundStatus_def t sp)
  show "emitted (handleOutboundStatus k ''ringing'' st)
              = emitted st @ [(Broadcast, Call_ringing k (recipientPhone s))]"
    by (simp add: handleOutboundStatus_def t)
  show "emitted (handleOutboundStatus k ''accepted'' st)
              = emitted st @ [(Broadcast, Call_accepted k (recipientPhone s))]"
    by (simp add: handleOutboundStatus_def t)
  show "emitted (handleOutboundStatus k ''rejected'' st)
              = emitted st @ [(Broadcast, Call_rejected k (recipientPhone s))]"
    by (simp add: handleOutboundStatus_def t)
  assume "v \<noteq> ''ringing'' \<and> v \<noteq> ''accepted'' \<and> v \<noteq> ''rejected''"
  then show "handleOutboundStatus k v st = emit Broadcast (Call_status k v) st"
    by (simp add: handleOutboundStatus_def t)
qed

text \<open>No match with one inbound call; first match with an inbound call before and a second
  matching call behind.\<close>

theorem status_fallback_first_match_witness:
  "map_of [(''in.1'', a_call ''in.1'' Inbound Incoming 0)] ''wacid.9'' = None \<and>
   \<not> status_fallback (a_call ''in.1'' Inbound Incoming 0) \<and>
   handleOutboundStatus ''wacid.9'' ''accepted''
     \<lparr>calls = [(''in.1'', a_call ''in.1'' Inbound Incoming 0)], permissions = [], emitted = [],
      closedPeers = [], timers = []\<rparr>
     = \<lparr>calls = [(''in.1'', a_call ''in.1'' Inbound Incoming 0)], permissions = [], emitted = [],
        closedPeers = [], timers = []\<rparr> \<and>
   map_of ([(''in.1'', a_call ''in.1'' Inbound Incoming 0)] @
           (''call_5'', a_call ''call_5'' Outbound Ringing 5) #
           [(''call_9'', a_call ''call_9'' Outbound Awaiting_browser_sdp 9)]) ''wacid.9'' = None \<and>
   status_fallback (a_call ''call_5'' Outbound Ringing 5) \<and>
   calls (handleOutboundStatus ''wacid.9'' ''accepted''
     \<lparr>calls = [(''in.1'', a_call ''in.1'' Inbound Incoming 0)] @
           (''call_5'', a_call ''call_5'' Outbound Ringing 5) #
           [(''call_9'', a_call ''call_9'' Outbound Awaiting_browser_sdp 9)],
      permissions = [], emitted = [], closedPeers = [], timers = []\<rparr>)
     = [(''in.1'', a_call ''in.1'' Inbound Incoming 0)] @
       (''call_5'', (a_call ''call_5'' Outbound Ringing 5)\<lparr>status := Accepted\<rparr>) #
       [(''call_9'', a_call ''call_9'' Outbound Awaiting_browser_sdp 9)]"
proof -
  let ?a = "\<lparr>calls = [(''in.1'', a_call ''in.1'' Inbound Incoming 0)], permissions = [],
             emitted = [], closedPeers = [], timers = []\<rparr>"
  let ?b = "\<lparr>calls = [(''in.1'', a_call ''in.1'' Inbound Incoming 0)] @
           (''call_5'', a_call ''call_5'' Outbound Ringing 5) #
           [(''call_9'', a_call ''call_9'' Outbound Awaiting_browser_sdp 9)],
      permissions = [], emitted = [], closedPeers = [], timers = []\<rparr>"
  have a: "map_of (calls ?a) ''wacid.9'' = None" by simp
  have b: "map_of (calls ?b) ''wacid.9'' = None" by simp
  have n: "\<not> status_fallback (a_call ''in.1'' Inbound Incoming 0)"
    by (simp add: status_fallback_def a_call_def)
  have y: "status_fallback (a_call ''call_5'' Outbound Ringing 5)"
    by (simp add: status_fallback_def a_call_def)
  show ?thesis
    using status_fallback_first_match [OF a, of "''accepted''" "[]" "''none''"
            "a_call ''in.1'' Inbound Incoming 0" "[]"]
          status_fallback_first_match [OF b, of "''accepted''"
            "[(''in.1'', a_call ''in.1'' Inbound Incoming 0)]" "''call_5''"
            "a_call ''call_5'' Outbound Ringing 5"
            "[(''call_9'', a_call ''call_9'' Outbound Awaiting_browser_sdp 9)]"] n y
    by simp
qed

text \<open>
  The claim as written drops the event when more than one call matches. With two ringing
  outbound calls the loop stops at the first: it becomes accepted and the event is
  broadcast.
\<close>

theorem status_fallback_ambiguous_counterexample:
  "handleOutboundStatus ''wacid.9'' ''accepted''
     \<lparr>calls = [(''call_5'', a_call ''call_5'' Outbound Ringing 5),
               (''call_9'', a_call ''call_9'' Outbound Ringing 9)],
      permissions = [], emitted = [], closedPeers = [], timers = []\<rparr>
   = \<lparr>calls = [(''call_5'', a_call ''call_5'' Outbound Accepted 5),
               (''call_9'', a_call ''call_9'' Outbound Ringing 9)],
      permissions = [],
      emitted = [(Broadcast, Call_accepted ''wacid.9'' ''+15551234567'')],
      closedPeers = [], timers = []\<rparr>"
  by (simp add: handleOutboundStatus_def statusTarget_def status_fallback_def a_call_def
        mutate_def emit_def)

text \<open>
  Claim C2, as the code has it. \<open>handleOutboundStatus\<close> looks at no status before it
  writes one. An \<open>accepted\<close> event for a call id in the registry sets that call's status to
  \<open>accepted\<close> whatever it was, a terminal status included; a second delivery leaves the
  registry as the first left it, and broadcasts \<open>call-accepted\<close> a second time.
\<close>

theorem accepted_twice:
  assumes "map_of (calls st) k = Some s"
  shows "map_of (calls (handleOutboundStatus k ''accepted'' st)) k = Some (s\<lparr>status := Accepted\<rparr>) \<and>
         calls (handleOutboundStatus k ''accepted'' (handleOutboundStatus k ''accepted'' st))
           = calls (handleOutboundStatus k ''accepted'' st) \<and>
         emitted (handleOutboundStatus k ''accepted'' (handleOutboundStatus k ''accepted'' st))
           = emitted st @ [(Broadcast, Call_accepted k (recipientPhone s)),
                           (Broadcast, Call_accepted k (recipientPhone s))]"
proof -
  let ?st1 = "handleOutboundStatus k ''accepted'' st"
  have t: "statusTarget k st = Some (k, s)" by (simp add: statusTarget_def assms)
  then have one: "?st1 = emit Broadcast (Call_accepted k (recipientPhone s))
                           (mutate k (\<lambda>c. c\<lparr>status := Accepted\<rparr>) st)"
    by (simp add: handleOutboundStatus_def)
  have look: "map_of (calls ?st1) k = Some (s\<lparr>status := Accepted\<rparr>)"
    by (simp add: one map_of_mutate assms)
  then have t1: "statusTarget k ?st1 = Some (k, s\<lparr>status := Accepted\<rparr>)"
    by (simp add: statusTarget_def)
  have two: "handleOutboundStatus k ''accepted'' ?st1 =
               emit Broadcast (Call_accepted k (recipientPhone s))
                 (mutate k (\<lambda>c. c\<lparr>status := Accepted\<rparr>) ?st1)"
    using t1 by (simp add: handleOutboundStatus_def)
  have "calls (mutate k (\<lambda>c. c\<lparr>status := Accepted\<rparr>) ?st1) = calls ?st1"
    by (simp add: one mutate_def split_beta o_def)
  with look show ?thesis
    by (simp add: two) (simp add: one)
qed

text \<open>A terminated call is accepted again, and the broadcast goes out twice.\<close>

theorem accepted_twice_witness:
  "map_of [(''wacid.1'', a_call ''wacid.1'' Outbound Terminated 0)] ''wacid.1''
     = Some (a_call ''wacid.1'' Outbound Terminated 0) \<and>
   map_of (calls (handleOutboundStatus ''wacid.1'' ''accepted''
      \<lparr>calls = [(''wacid.1'', a_call ''wacid.1'' Outbound Terminated 0)], permissions = [],
       emitted = [], closedPeers = [], timers = []\<rparr>)) ''wacid.1''
     = Some (a_call ''wacid.1'' Outbound Accepted 0) \<and>
   emitted (handleOutboundStatus ''wacid.1'' ''accepted'' (handleOutboundStatus ''wacid.1'' ''accepted''
      \<lparr>calls = [(''wacid.1'', a_call ''wacid.1'' Outbound Terminated 0)], permissions = [],
       emitted = [], closedPeers = [], timers = []\<rparr>))
     = [(Broadcast, Call_accepted ''wacid.1'' ''+15551234567''),
        (Broadcast, Call_accepted ''wacid.1'' ''+15551234567'')]"
  using accepted_twice [of "\<lparr>calls = [(''wacid.1'', a_call ''wacid.1'' Outbound Terminated 0)],
       permissions = [], emitted = [], closedPeers = [], timers = []\<rparr>" "''wacid.1''"
       "a_call ''wacid.1'' Outbound Terminated 0"]
  by (simp add: a_call_def)

text \<open>
  The claim as written makes the second delivery a no-op with no second broadcast. Two
  deliveries to a ringing call, starting from an empty event log, leave two broadcasts.
\<close>

theorem accepted_twice_counterexample:
  "emitted (handleOutboundStatus ''wacid.1'' ''accepted'' (handleOutboundStatus ''wacid.1'' ''accepted''
      \<lparr>calls = [(''wacid.1'', a_call ''wacid.1'' Outbound Ringing 0)], permissions = [],
       emitted = [], closedPeers = [], timers = []\<rparr>))
     = [(Broadcast, Call_accepted ''wacid.1'' ''+15551234567''),
        (Broadcast, Call_accepted ''wacid.1'' ''+15551234567'')]"
  by (simp add: handleOutboundStatus_def statusTarget_def a_call_def mutate_def emit_def)

subsection \<open>Reset of stuck calls\<close>

lemma reset_count:
  "fst (resetLoop todo n st) = n + length (filter (stuck \<circ> snd) todo)"
  by (induction todo n st rule: resetLoop.induct) simp_all

lemma reset_fields [simp]:
  "permissions (snd (resetLoop todo n st)) = permissions st"
  "emitted (snd (resetLoop todo n st)) = emitted st"
  by (induction todo n st rule: resetLoop.induct) simp_all

lemma reset_calls:
  "calls (snd (resetLoop todo n st)) =
     map (set_status_in (fst ` set (filter (stuck \<circ> snd) todo)) Reset) (calls st)"
proof (induction todo n st rule: resetLoop.induct)
  case (1 n st)
  show ?case by simp
next
  case (2 k s rest n st)
  show ?case
  proof (cases "stuck s")
    case True
    with 2 show ?thesis by (simp add: calls_mutate_status set_status_in_comp)
  next
    case False
    with 2 show ?thesis by simp
  qed
qed

lemma reset_timers:
  "set (map fst todo) \<subseteq> set (map fst (calls st)) \<Longrightarrow>
   timers (snd (resetLoop todo n st)) = timers st @ map fst (filter (stuck \<circ> snd) todo)"
proof (induction todo n st rule: resetLoop.induct)
  case (1 n st)
  show ?case by simp
next
  case (2 k s rest n st)
  let ?st = "cleanup k (mutate k (\<lambda>c. c\<lparr>status := Reset\<rparr>) st)"
  from "2.prems" have k: "k \<in> set (map fst (calls st))"
    and rest: "set (map fst rest) \<subseteq> set (map fst (calls st))" by auto
  have "map_of (calls (mutate k (\<lambda>c. c\<lparr>status := Reset\<rparr>) st)) k \<noteq> None"
    using k by (simp add: map_of_eq_None_iff flip: set_map)
  then have tm: "timers ?st = timers st @ [k]"
    by (auto simp: cleanup_def split: option.splits)
  show ?case
  proof (cases "stuck s")
    case True
    with "2.IH"(1) rest show ?thesis by (simp add: tm)
  next
    case False
    with "2.IH"(2) rest show ?thesis by simp
  qed
qed

lemma reset_closedPeers:
  "\<forall>(k, s) \<in> set todo. \<exists>c. map_of (calls st) k = Some c \<and> peers_of c = peers_of s \<Longrightarrow>
   closedPeers (snd (resetLoop todo n st))
     = closedPeers st @ concat (map (peers_of \<circ> snd) (filter (stuck \<circ> snd) todo))"
proof (induction todo n st rule: resetLoop.induct)
  case (1 n st)
  show ?case by simp
next
  case (2 k s rest n st)
  let ?st = "cleanup k (mutate k (\<lambda>c. c\<lparr>status := Reset\<rparr>) st)"
  from "2.prems" obtain c where here: "map_of (calls st) k = Some c" "peers_of c = peers_of s"
    by auto
  from "2.prems"
  have rest: "\<forall>(k, s) \<in> set rest. \<exists>c. map_of (calls st) k = Some c \<and> peers_of c = peers_of s"
    by auto
  have rest': "\<forall>(k, s) \<in> set rest. \<exists>c. map_of (calls ?st) k = Some c \<and> peers_of c = peers_of s"
  proof (clarify)
    fix a b assume "(a, b) \<in> set rest"
    with rest obtain c where "map_of (calls st) a = Some c" "peers_of c = peers_of b"
      by blast
    then show "\<exists>c. map_of (calls ?st) a = Some c \<and> peers_of c = peers_of b"
      by (cases "a = k") (simp_all add: map_of_mutate)
  qed
  have cl: "closedPeers ?st = closedPeers st @ peers_of s"
    using here by (simp add: cleanup_def map_of_mutate)
  show ?case
  proof (cases "stuck s")
    case True
    with "2.IH"(1) [OF True rest'] show ?thesis by (simp add: cl)
  next
    case False
    with "2.IH"(2) [OF False rest] show ?thesis by simp
  qed
qed

lemma reset_each:
  assumes "distinct (map fst cs)"
  shows "map (set_status_in (fst ` set (filter (stuck \<circ> snd) cs)) Reset) cs
           = map (\<lambda>(k, s). (k, if stuck s then s\<lparr>status := Reset\<rparr> else s)) cs"
proof (rule map_cong [OF refl])
  fix e assume e: "e \<in> set cs"
  obtain k s where ks: "e = (k, s)" by (cases e)
  have "k \<in> fst ` set (filter (stuck \<circ> snd) cs) \<longleftrightarrow> stuck s"
  proof
    assume "k \<in> fst ` set (filter (stuck \<circ> snd) cs)"
    then obtain s' where "(k, s') \<in> set cs" "stuck s'" by auto
    with assms e ks show "stuck s" by (metis eq_key_imp_eq_value)
  next
    assume "stuck s"
    with e ks show "k \<in> fst ` set (filter (stuck \<circ> snd) cs)" by force
  qed
  then show "set_status_in (fst ` set (filter (stuck \<circ> snd) cs)) Reset e
      = (case e of (k, s) \<Rightarrow> (k, if stuck s then s\<lparr>status := Reset\<rparr> else s))"
    by (simp add: ks set_status_in_def)
qed

text \<open>
  Claim C7, as the code has it. \<open>resetCalls\<close> sets to \<open>reset\<close> every call whose status is
  \<open>awaiting_browser_sdp\<close>, \<open>ringing\<close>, \<open>accepted\<close> or \<open>incoming\<close>, and no other call: a
  call that is \<open>connected\<close>, \<open>accepting\<close> or \<open>pre_accepted\<close> keeps its status. It runs
  \<open>cleanup\<close> on each call it resets, in registry order, returns their number and
  broadcasts it.
\<close>

theorem resetCalls_stuck:
  assumes "distinct (map fst (calls st))"
  shows "fst (resetCalls io st) = length (filter (stuck \<circ> snd) (calls st)) \<and>
         calls (snd (resetCalls io st))
           = map (\<lambda>(k, s). (k, if stuck s then s\<lparr>status := Reset\<rparr> else s)) (calls st) \<and>
         timers (snd (resetCalls io st)) = timers st @ map fst (filter (stuck \<circ> snd) (calls st)) \<and>
         closedPeers (snd (resetCalls io st))
           = closedPeers st @ concat (map (peers_of \<circ> snd) (filter (stuck \<circ> snd) (calls st))) \<and>
         emitted (snd (resetCalls io st))
           = (if io then emitted st @ [(Broadcast, Calls_reset (fst (resetCalls io st)))]
              else emitted st)"
proof -
  obtain n st1 where l: "resetLoop (calls st) 0 st = (n, st1)" by force
  then have n: "n = fst (resetLoop (calls st) 0 st)" and st1: "st1 = snd (resetLoop (calls st) 0 st)"
    by simp_all
  have "\<forall>(k, s) \<in> set (calls st). \<exists>c. map_of (calls st) k = Some c \<and> peers_of c = peers_of s"
    using assms by auto
  then have cl: "closedPeers st1
      = closedPeers st @ concat (map (peers_of \<circ> snd) (filter (stuck \<circ> snd) (calls st)))"
    unfolding st1 by (rule reset_closedPeers)
  have tm: "timers st1 = timers st @ map fst (filter (stuck \<circ> snd) (calls st))"
    unfolding st1 by (rule reset_timers) simp
  have cs: "calls st1 = map (\<lambda>(k, s). (k, if stuck s then s\<lparr>status := Reset\<rparr> else s)) (calls st)"
    unfolding st1 reset_calls by (rule reset_each [OF assms])
  have em: "emitted st1 = emitted st" unfolding st1 by simp
  have cnt: "n = length (filter (stuck \<circ> snd) (calls st))"
    unfolding n by (simp add: reset_count)
  show ?thesis
    by (simp add: resetCalls_def l cl tm cs em cnt)
qed

text \<open>The scenario of the claim: one call ringing and one incoming, both reset, count 2.\<close>

theorem resetCalls_stuck_witness:
  "distinct (map fst [(''wacid.1'', a_call ''wacid.1'' Outbound Ringing 0),
                      (''wacid.2'', a_call ''wacid.2'' Inbound Incoming 5)]) \<and>
   fst (resetCalls True
     \<lparr>calls = [(''wacid.1'', a_call ''wacid.1'' Outbound Ringing 0),
               (''wacid.2'', a_call ''wacid.2'' Inbound Incoming 5)],
      permissions = [], emitted = [], closedPeers = [], timers = []\<rparr>) = 2 \<and>
   calls (snd (resetCalls True
     \<lparr>calls = [(''wacid.1'', a_call ''wacid.1'' Outbound Ringing 0),
               (''wacid.2'', a_call ''wacid.2'' Inbound Incoming 5)],
      permissions = [], emitted = [], closedPeers = [], timers = []\<rparr>))
     = [(''wacid.1'', a_call ''wacid.1'' Outbound Reset 0),
        (''wacid.2'', a_call ''wacid.2'' Inbound Reset 5)] \<and>
   timers (snd (resetCalls True
     \<lparr>calls = [(''wacid.1'', a_call ''wacid.1'' Outbound Ringing 0),
               (''wacid.2'', a_call ''wacid.2'' Inbound Incoming 5)],
      permissions = [], emitted = [], closedPeers = [], timers = []\<rparr>))
     = [''wacid.1'', ''wacid.2'']"
  using resetCalls_stuck [of "\<lparr>calls = [(''wacid.1'', a_call ''wacid.1'' Outbound Ringing 0),
               (''wacid.2'', a_call ''wacid.2'' Inbound Incoming 5)],
      permissions = [], emitted = [], closedPeers = [], timers = []\<rparr>" True]
  by (simp add: stuck_def a_call_def)

text \<open>
  The claim as written resets every call in a non-terminal status. A connected call is not
  in the list \<open>resetCalls\<close> tests: it stays connected and the count is 0.
\<close>

theorem resetCalls_connected_counterexample:
  "resetCalls True
     \<lparr>calls = [(''wacid.1'', a_call ''wacid.1'' Outbound Connected 0)],
      permissions = [], emitted = [], closedPeers = [], timers = []\<rparr>
   = (0, \<lparr>calls = [(''wacid.1'', a_call ''wacid.1'' Outbound Connected 0)],
          permissions = [], emitted = [(Broadcast, Calls_reset 0)], closedPeers = [],
          timers = []\<rparr>)"
  by (simp add: resetCalls_def stuck_def a_call_def emit_def)

subsection \<open>Events for an unknown call id\<close>

text \<open>
  Claim C8, as the code has it. When the call id is not a key of the registry, a terminate
  event of the provider, a browser offer and a browser answer are dropped: the state is
  unchanged and nothing is thrown. An end request changes no state either, but \<open>endCall\<close>
  throws \<open>No active call\<close>, and the \<open>end-call\<close> socket handler sends that message back to
  the socket that asked; accept and reject requests throw in the same way.
\<close>

theorem unknown_call_id:
  assumes "map_of (calls st) k = None"
  shows "handleTerminate k st = st \<and>
         handleBrowserSdpOffer k sdp x st = st \<and>
         handleBrowserSdpAnswer k sdp x st = (Inr (), st) \<and>
         endCall k x st = (Inl No_active_call, st) \<and>
         on_end_call socket k x st = emit (To_socket socket) (Error_message ''No active call'') st \<and>
         rejectInboundCall k x st = (Inl No_inbound_call_to_reject, st) \<and>
         acceptInboundCall k sock x st = (Inl No_inbound_call_to_accept, st)"
  using assms
  by (simp add: handleTerminate_def handleBrowserSdpOffer_def handleBrowserSdpAnswer_def
        endCall_def on_end_call_def rejectInboundCall_def acceptInboundCall_def message_def)

theorem unknown_call_id_witness:
  "map_of (calls init_system) ''wacid.404'' = None \<and>
   handleTerminate ''wacid.404'' init_system = init_system \<and>
   endCall ''wacid.404'' (answers False) init_system = (Inl No_active_call, init_system)"
  using unknown_call_id [of init_system "''wacid.404''" "''v=0''" "answers False" "''socket.1''" None]
  by (simp add: init_system_def)

text \<open>
  The claim as written says that no such event is ever surfaced as a failure to a caller.
  An end request for an unknown id is: \<open>endCall\<close> throws and the socket receives an
  \<open>error\<close> event.
\<close>

theorem end_call_unknown_counterexample:
  "endCall ''wacid.404'' (answers False) init_system = (Inl No_active_call, init_system) \<and>
   on_end_call ''socket.1'' ''wacid.404'' (answers False) init_system
     = \<lparr>calls = [], permissions = [],
        emitted = [(To_socket ''socket.1'', Error_message ''No active call'')],
        closedPeers = [], timers = []\<rparr>"
  by (simp add: endCall_def on_end_call_def init_system_def emit_def message_def)

subsection \<open>Ending and rejecting a call\<close>


lemma swallow_id [simp]: "swallow outcome st = st"
  by (simp add: swallow_def split: option.splits)



subsection \<open>Accepting an inbound call\<close>

lemma accept_guard_fails:
  "map_of (calls st) k = None \<or> (\<exists>s. map_of (calls st) k = Some s \<and> direction s \<noteq> Inbound) \<Longrightarrow>
   acceptInboundCall k socket x st = (Inl No_inbound_call_to_accept, st)"
  by (auto simp: acceptInboundCall_def)

lemma accept_proceeds:
  assumes "map_of (calls st) k = Some s" "direction s = Inbound"
  shows "fst (acceptInboundCall k socket x st) \<noteq> Inl No_inbound_call_to_accept"
    and "\<exists>c. map_of (calls (snd (acceptInboundCall k socket x st))) k = Some c \<and>
             (status c = Accepting \<or> status c = Pre_accepted \<or> status c = Connected)"
    and "\<not> isAvailable x \<Longrightarrow> acceptInboundCall k socket x st =
           (Inr (), emit (case socket of Some i \<Rightarrow> To_socket i | None \<Rightarrow> Broadcast)
                      (Inbound_sdp_offer k (whatsappSdpOffer s))
                      (mutate k (\<lambda>c. c\<lparr>status := Accepting\<rparr>) st))"
  using assms
  by (auto simp: acceptInboundCall_def Let_def map_of_mutate split: sum.splits option.splits)

text \<open>Server mode, outcome by outcome: where the handshake stops, the error is the one of
  the step that failed and the call keeps the status reached before it.\<close>

lemma accept_server:
  assumes "map_of (calls st) k = Some s" "direction s = Inbound" "isAvailable x"
  shows "createAnswerSdp x = Inl m \<Longrightarrow>
           acceptInboundCall k socket x st =
             (Inl (External_failure m),
              mutate k (\<lambda>c. c\<lparr>status := Accepting, whatsappPeer := Some (createPeerConnection x)\<rparr>) st)"
    and "createAnswerSdp x = Inr sdpAnswer \<Longrightarrow> answerCall x ''pre_accept'' = Some m \<Longrightarrow>
           acceptInboundCall k socket x st =
             (Inl (External_failure m),
              mutate k (\<lambda>c. c\<lparr>status := Accepting, whatsappPeer := Some (createPeerConnection x)\<rparr>) st)"
    and "createAnswerSdp x = Inr sdpAnswer \<Longrightarrow> answerCall x ''pre_accept'' = None \<Longrightarrow>
         answerCall x ''accept'' = Some m \<Longrightarrow>
           acceptInboundCall k socket x st =
             (Inl (External_failure m),
              mutate k (\<lambda>c. c\<lparr>status := Pre_accepted, whatsappPeer := Some (createPeerConnection x)\<rparr>) st)"
    and "createAnswerSdp x = Inr sdpAnswer \<Longrightarrow> answerCall x ''pre_accept'' = None \<Longrightarrow>
         answerCall x ''accept'' = None \<Longrightarrow>
           acceptInboundCall k socket x st =
             (Inr (),
              emit Broadcast (Call_connected k (recipientPhone s))
                (emit (case socket of Some i \<Rightarrow> To_socket i | None \<Rightarrow> Broadcast)
                   (Setup_browser_audio k)
                   (mutate k (\<lambda>c. c\<lparr>status := Connected,
                                      whatsappPeer := Some (createPeerConnection x)\<rparr>) st)))"
proof -
  have swap: "\<And>p v. (\<lambda>c :: call_state. c\<lparr>whatsappPeer := p, status := v\<rparr>)
                      = (\<lambda>c. c\<lparr>status := v, whatsappPeer := p\<rparr>)"
    by (rule ext) simp
  show "createAnswerSdp x = Inl m \<Longrightarrow>
           acceptInboundCall k socket x st =
             (Inl (External_failure m),
              mutate k (\<lambda>c. c\<lparr>status := Accepting, whatsappPeer := Some (createPeerConnection x)\<rparr>) st)"
    and "createAnswerSdp x = Inr sdpAnswer \<Longrightarrow> answerCall x ''pre_accept'' = Some m \<Longrightarrow>
           acceptInboundCall k socket x st =
             (Inl (External_failure m),
              mutate k (\<lambda>c. c\<lparr>status := Accepting, whatsappPeer := Some (createPeerConnection x)\<rparr>) st)"
    and "createAnswerSdp x = Inr sdpAnswer \<Longrightarrow> answerCall x ''pre_accept'' = None \<Longrightarrow>
         answerCall x ''accept'' = Some m \<Longrightarrow>
           acceptInboundCall k socket x st =
             (Inl (External_failure m),
              mutate k (\<lambda>c. c\<lparr>status := Pre_accepted, whatsappPeer := Some (createPeerConnection x)\<rparr>) st)"
    and "createAnswerSdp x = Inr sdpAnswer \<Longrightarrow> answerCall x ''pre_accept'' = None \<Longrightarrow>
         answerCall x ''accept'' = None \<Longrightarrow>
           acceptInboundCall k socket x st =
             (Inr (),
              emit Broadcast (Call_connected k (recipientPhone s))
                (emit (case socket of Some i \<Rightarrow> To_socket i | None \<Rightarrow> Broadcast)
                   (Setup_browser_audio k)
                   (mutate k (\<lambda>c. c\<lparr>status := Connected,
                                      whatsappPeer := Some (createPeerConnection x)\<rparr>) st)))"
    using assms
    by (simp_all add: acceptInboundCall_def Let_def comp_def swap)
qed

text \<open>
  Claim C10. \<open>acceptInboundCall\<close> throws \<open>No inbound call to accept\<close> exactly when the
  registry has no call under the id or the call there is not inbound, and then the state is
  unchanged. On an inbound call it goes on whatever the call's status, a terminal one
  included. In browser-only mode the status becomes \<open>accepting\<close>, the stored offer is sent
  to the browser and the handler returns. In server mode the status becomes \<open>accepting\<close>
  and the call gets its peer; then the answer is made, \<open>pre_accept\<close> is sent, the status
  becomes \<open>pre_accepted\<close>, \<open>accept\<close> is sent, the status becomes \<open>connected\<close>, and
  \<open>setup-browser-audio\<close> and \<open>call-connected\<close> go out, in this order; a step that fails
  throws its error and leaves the call where the steps before it brought it.
\<close>

theorem acceptInboundCall_guard:
  "(fst (acceptInboundCall k socket x st) = Inl No_inbound_call_to_accept \<longleftrightarrow>
      map_of (calls st) k = None \<or> (\<exists>s. map_of (calls st) k = Some s \<and> direction s \<noteq> Inbound)) \<and>
   (fst (acceptInboundCall k socket x st) = Inl No_inbound_call_to_accept \<longrightarrow>
      snd (acceptInboundCall k socket x st) = st) \<and>
   (map_of (calls st) k = Some s \<and> direction s = Inbound \<longrightarrow>
      (\<exists>c. map_of (calls (snd (acceptInboundCall k socket x st))) k = Some c \<and>
           (status c = Accepting \<or> status c = Pre_accepted \<or> status c = Connected)) \<and>
      (\<not> isAvailable x \<longrightarrow> acceptInboundCall k socket x st =
           (Inr (), emit (case socket of Some i \<Rightarrow> To_socket i | None \<Rightarrow> Broadcast)
                      (Inbound_sdp_offer k (whatsappSdpOffer s))
                      (mutate k (\<lambda>c. c\<lparr>status := Accepting\<rparr>) st))) \<and>
      (isAvailable x \<and> createAnswerSdp x = Inl m \<longrightarrow>
         acceptInboundCall k socket x st =
           (Inl (External_failure m),
            mutate k (\<lambda>c. c\<lparr>status := Accepting,
                               whatsappPeer := Some (createPeerConnection x)\<rparr>) st)) \<and>
      (isAvailable x \<and> createAnswerSdp x = Inr sdpAnswer \<and>
       answerCall x ''pre_accept'' = Some m \<longrightarrow>
         acceptInboundCall k socket x st =
           (Inl (External_failure m),
            mutate k (\<lambda>c. c\<lparr>status := Accepting,
                               whatsappPeer := Some (createPeerConnection x)\<rparr>) st)) \<and>
      (isAvailable x \<and> createAnswerSdp x = Inr sdpAnswer \<and>
       answerCall x ''pre_accept'' = None \<and> answerCall x ''accept'' = Some m \<longrightarrow>
         acceptInboundCall k socket x st =
           (Inl (External_failure m),
            mutate k (\<lambda>c. c\<lparr>status := Pre_accepted,
                               whatsappPeer := Some (createPeerConnection x)\<rparr>) st)) \<and>
      (isAvailable x \<and> createAnswerSdp x = Inr sdpAnswer \<and>
       answerCall x ''pre_accept'' = None \<and> answerCall x ''accept'' = None \<longrightarrow>
         acceptInboundCall k socket x st =
           (Inr (),
            emit Broadcast (Call_connected k (recipientPhone s))
              (emit (case socket of Some i \<Rightarrow> To_socket i | None \<Rightarrow> Broadcast)
                 (Setup_browser_audio k)
                 (mutate k (\<lambda>c. c\<lparr>status := Connected,
                                    whatsappPeer := Some (createPeerConnection x)\<rparr>) st)))))"
proof -
  have iff: "fst (acceptInboundCall k socket x st) = Inl No_inbound_call_to_accept \<longleftrightarrow>
      map_of (calls st) k = None \<or> (\<exists>s. map_of (calls st) k = Some s \<and> direction s \<noteq> Inbound)"
  proof
    assume l: "fst (acceptInboundCall k socket x st) = Inl No_inbound_call_to_accept"
    show "map_of (calls st) k = None \<or> (\<exists>s. map_of (calls st) k = Some s \<and> direction s \<noteq> Inbound)"
    proof (rule ccontr)
      assume "\<not> ?thesis"
      then obtain s where "map_of (calls st) k = Some s" "direction s = Inbound" by auto
      from accept_proceeds(1) [OF this] l show False by blast
    qed
  next
    assume "map_of (calls st) k = None \<or> (\<exists>s. map_of (calls st) k = Some s \<and> direction s \<noteq> Inbound)"
    then show "fst (acceptInboundCall k socket x st) = Inl No_inbound_call_to_accept"
      by (simp add: accept_guard_fails)
  qed
  moreover have "fst (acceptInboundCall k socket x st) = Inl No_inbound_call_to_accept \<longrightarrow>
      snd (acceptInboundCall k socket x st) = st"
    using iff by (auto simp: accept_guard_fails)
  ultimately show ?thesis
    using accept_proceeds(2,3) [where st = st and k = k and s = s and socket = socket and x = x]
      accept_server(1) [where st = st and k = k and s = s and socket = socket and x = x and m = m]
      accept_server(2,3) [where st = st and k = k and s = s and socket = socket and x = x
        and m = m and sdpAnswer = sdpAnswer]
      accept_server(4) [where st = st and k = k and s = s and socket = socket and x = x
        and sdpAnswer = sdpAnswer]
    by blast
qed

text \<open>A terminated inbound call is accepted again in browser-only mode; an outbound call is
  refused; in server mode an incoming call is connected when every step succeeds, and
  stays \<open>pre_accepted\<close> when the provider refuses the final \<open>accept\<close>.\<close>

theorem acceptInboundCall_guard_witness:
  "map_of [(''wacid.3'', a_call ''wacid.3'' Inbound Terminated 0)] ''wacid.3''
     = Some (a_call ''wacid.3'' Inbound Terminated 0) \<and>
   direction (a_call ''wacid.3'' Inbound Terminated 0) = Inbound \<and>
   \<not> isAvailable (answers False) \<and>
   acceptInboundCall ''wacid.3'' (Some ''socket.1'') (answers False)
     \<lparr>calls = [(''wacid.3'', a_call ''wacid.3'' Inbound Terminated 0)], permissions = [],
      emitted = [], closedPeers = [], timers = []\<rparr>
   = (Inr (),
      \<lparr>calls = [(''wacid.3'', a_call ''wacid.3'' Inbound Accepting 0)], permissions = [],
       emitted = [(To_socket ''socket.1'', Inbound_sdp_offer ''wacid.3'' None)],
       closedPeers = [], timers = []\<rparr>) \<and>
   fst (acceptInboundCall ''wacid.4'' None (answers False)
     \<lparr>calls = [(''wacid.4'', a_call ''wacid.4'' Outbound Ringing 0)], permissions = [],
      emitted = [], closedPeers = [], timers = []\<rparr>) = Inl No_inbound_call_to_accept \<and>
   snd (acceptInboundCall ''wacid.4'' None (answers False)
     \<lparr>calls = [(''wacid.4'', a_call ''wacid.4'' Outbound Ringing 0)], permissions = [],
      emitted = [], closedPeers = [], timers = []\<rparr>)
   = \<lparr>calls = [(''wacid.4'', a_call ''wacid.4'' Outbound Ringing 0)], permissions = [],
      emitted = [], closedPeers = [], timers = []\<rparr> \<and>
   isAvailable (answers True) \<and> createAnswerSdp (answers True) = Inr ''v=0 answer'' \<and>
   answerCall (answers True) ''pre_accept'' = None \<and>
   answerCall (answers True) ''accept'' = None \<and>
   acceptInboundCall ''wacid.8'' (Some ''socket.1'') (answers True)
     \<lparr>calls = [(''wacid.8'', a_call ''wacid.8'' Inbound Incoming 0)], permissions = [],
      emitted = [], closedPeers = [], timers = []\<rparr>
   = (Inr (),
      \<lparr>calls = [(''wacid.8'', (a_call ''wacid.8'' Inbound Connected 0)\<lparr>whatsappPeer := Some 1\<rparr>)],
       permissions = [],
       emitted = [(To_socket ''socket.1'', Setup_browser_audio ''wacid.8''),
                  (Broadcast, Call_connected ''wacid.8'' ''+15551234567'')],
       closedPeers = [], timers = []\<rparr>) \<and>
   answerCall accept_refused ''pre_accept'' = None \<and>
   answerCall accept_refused ''accept'' = Some ''Request failed with status code 400'' \<and>
   acceptInboundCall ''wacid.8'' (Some ''socket.1'') accept_refused
     \<lparr>calls = [(''wacid.8'', a_call ''wacid.8'' Inbound Incoming 0)], permissions = [],
      emitted = [], closedPeers = [], timers = []\<rparr>
   = (Inl (External_failure ''Request failed with status code 400''),
      \<lparr>calls = [(''wacid.8'', (a_call ''wacid.8'' Inbound Pre_accepted 0)\<lparr>whatsappPeer := Some 1\<rparr>)],
       permissions = [], emitted = [], closedPeers = [], timers = []\<rparr>)"
  using acceptInboundCall_guard [where k = "''wacid.3''" and socket = "Some ''socket.1''"
          and x = "answers False"
          and st = "\<lparr>calls = [(''wacid.3'', a_call ''wacid.3'' Inbound Terminated 0)],
            permissions = [], emitted = [], closedPeers = [], timers = []\<rparr>"
          and s = "a_call ''wacid.3'' Inbound Terminated 0"]
        acceptInboundCall_guard [where k = "''wacid.4''" and socket = None
          and x = "answers False"
          and st = "\<lparr>calls = [(''wacid.4'', a_call ''wacid.4'' Outbound Ringing 0)],
            permissions = [], emitted = [], closedPeers = [], timers = []\<rparr>"
          and s = "a_call ''wacid.4'' Outbound Ringing 0"]
        acceptInboundCall_guard [where k = "''wacid.8''" and socket = "Some ''socket.1''"
          and x = "answers True"
          and st = "\<lparr>calls = [(''wacid.8'', a_call ''wacid.8'' Inbound Incoming 0)],
            permissions = [], emitted = [], closedPeers = [], timers = []\<rparr>"
          and s = "a_call ''wacid.8'' Inbound Incoming 0" and sdpAnswer = "''v=0 answer''"]
        acceptInboundCall_guard [where k = "''wacid.8''" and socket = "Some ''socket.1''"
          and x = accept_refused
          and st = "\<lparr>calls = [(''wacid.8'', a_call ''wacid.8'' Inbound Incoming 0)],
            permissions = [], emitted = [], closedPeers = [], timers = []\<rparr>"
          and s = "a_call ''wacid.8'' Inbound Incoming 0" and sdpAnswer = "''v=0 answer''"
          and m = "''Request failed with status code 400''"]
  by (simp add: a_call_def answers_def accept_refused_def mutate_def emit_def)

subsection \<open>The registry and its keys\<close>




















lemma map_of_view: "map_of (calls (view w)) k = map_option (objects w) (map_of (registry w) k)"
proof -
  have "map_of (map (\<lambda>(k, a). (k, f a)) reg) k = map_option f (map_of reg k)" for f and reg :: "(string \<times> nat) list"
    by (induction reg) auto
  then show ?thesis by (simp add: view_def)
qed




lemma offer_begin_none:
  assumes "offer_begin k w = None"
  shows "handleBrowserSdpOffer k sdp x (view w) = view w"
  using assms
  by (auto simp: offer_begin_def handleBrowserSdpOffer_def map_of_view
           split: option.splits if_splits)











subsection \<open>Permissions\<close>

text \<open>
  Claim C3, as the code has it. A phone granted permission at time \<open>T\<close> reads as granted at
  every time up to and including \<open>T + 72h\<close>, and such a read changes nothing; a read
  strictly after \<open>T + 72h\<close> answers \<open>granted = false, expired = true\<close> and removes the
  phone's entry from the ledger.
\<close>

theorem permission_round_trip:
  "(t \<le> T + 72 * 60 * 60 * 1000 \<longrightarrow>
      getPermissionStatus phone t (handlePermissionGranted phone T st) =
        (Granted T (T + 72 * 60 * 60 * 1000) (round_hours (T + 72 * 60 * 60 * 1000 - t)),
         handlePermissionGranted phone T st)) \<and>
   (t > T + 72 * 60 * 60 * 1000 \<longrightarrow>
      fst (getPermissionStatus phone t (handlePermissionGranted phone T st)) = Just_expired \<and>
      map_of (permissions (snd (getPermissionStatus phone t (handlePermissionGranted phone T st))))
        phone = None)"
  by (simp add: getPermissionStatus_def handlePermissionGranted_def emit_def Let_def
        AList.update_conv' AList.delete_conv')

theorem permission_round_trip_witness:
  "(100 :: int) \<le> 0 + 72 * 60 * 60 * 1000 \<and>
   granted (fst (getPermissionStatus ''+15551234567'' 100
                  (handlePermissionGranted ''+15551234567'' 0 init_system))) \<and>
   (259200001 :: int) > 0 + 72 * 60 * 60 * 1000 \<and>
   expired (fst (getPermissionStatus ''+15551234567'' 259200001
                  (handlePermissionGranted ''+15551234567'' 0 init_system)))"
  using permission_round_trip [of 100 0 "''+15551234567''" init_system]
        permission_round_trip [of 259200001 0 "''+15551234567''" init_system]
  by simp

text \<open>
  The claim as written puts the first expired read at exactly \<open>T + 72h\<close>. The code compares
  with \<open>now > expiresAt\<close>: a read at exactly \<open>T + 72h\<close> is still granted, with zero hours
  remaining, and the entry stays.
\<close>

theorem permission_boundary_counterexample:
  "granted (fst (getPermissionStatus ''+15551234567'' (0 + 72 * 60 * 60 * 1000)
                   (handlePermissionGranted ''+15551234567'' 0 init_system))) \<and>
   \<not> expired (fst (getPermissionStatus ''+15551234567'' (0 + 72 * 60 * 60 * 1000)
                   (handlePermissionGranted ''+15551234567'' 0 init_system))) \<and>
   map_of (permissions (snd (getPermissionStatus ''+15551234567'' (0 + 72 * 60 * 60 * 1000)
                   (handlePermissionGranted ''+15551234567'' 0 init_system)))) ''+15551234567''
     = Some \<lparr>grantedAt = 0, expiresAt = 259200000\<rparr>"
  by (simp add: getPermissionStatus_def handlePermissionGranted_def emit_def Let_def
        init_system_def)

end
